theory Spec2Isabelle
  imports Complex_Main
begin

section \<open>JavaScript numbers\<close>

text \<open>
  A JavaScript number is a double: a finite value, one of the two infinities, or NaN.
  Finite values are modelled as rationals (every double is one). The range of the
  doubles is modelled: a finite result whose nearest double would lie beyond the largest
  one, that is a result of magnitude \<open>2^1024 - 2^970\<close> or more, is the infinity of its
  sign. Below that bound a result is kept as it is, without rounding to the nearest
  double, and there is a single zero (the sign of a zero is not tracked, so a finite
  non-zero value divided by zero has the sign of the dividend). Everything else
  follows the language: NaN is contagious, compares false with everything, and the
  indeterminate forms give NaN.
\<close>

datatype jsnum = Fin rat | PosInf | NegInf | NaN

text \<open>The result of reading a property or an array slot: the value, or \<open>undefined\<close>.\<close>

datatype jsval = Undefined | Number jsnum

fun to_number :: "jsval \<Rightarrow> jsnum" where
  "to_number Undefined = NaN"
| "to_number (Number n) = n"

fun is_fin :: "jsnum \<Rightarrow> bool" where
  "is_fin (Fin r) = True"
| "is_fin PosInf = False"
| "is_fin NegInf = False"
| "is_fin NaN = False"

definition overflow_threshold :: rat where
  "overflow_threshold = 2 ^ 1024 - 2 ^ 970"

text \<open>The number that an operation with the exact finite result \<open>r\<close> gives.\<close>

definition finite_result :: "rat \<Rightarrow> jsnum" where
  "finite_result r =
     (if overflow_threshold \<le> r then PosInf
      else if r \<le> - overflow_threshold then NegInf
      else Fin r)"

fun js_neg :: "jsnum \<Rightarrow> jsnum" where
  "js_neg (Fin a) = Fin (- a)"
| "js_neg PosInf = NegInf"
| "js_neg NegInf = PosInf"
| "js_neg NaN = NaN"

fun js_add :: "jsnum \<Rightarrow> jsnum \<Rightarrow> jsnum" where
  "js_add (Fin a) (Fin b) = finite_result (a + b)"
| "js_add (Fin a) PosInf = PosInf"
| "js_add (Fin a) NegInf = NegInf"
| "js_add PosInf (Fin b) = PosInf"
| "js_add PosInf PosInf = PosInf"
| "js_add PosInf NegInf = NaN"
| "js_add NegInf (Fin b) = NegInf"
| "js_add NegInf PosInf = NaN"
| "js_add NegInf NegInf = NegInf"
| "js_add NaN y = NaN"
| "js_add x NaN = NaN"

definition js_sub :: "jsnum \<Rightarrow> jsnum \<Rightarrow> jsnum" where
  "js_sub x y = js_add x (js_neg y)"

text \<open>The infinity whose sign is that of a non-zero rational.\<close>

definition inf_of_sign :: "rat \<Rightarrow> jsnum" where
  "inf_of_sign a = (if 0 < a then PosInf else NegInf)"

fun js_mul :: "jsnum \<Rightarrow> jsnum \<Rightarrow> jsnum" where
  "js_mul (Fin a) (Fin b) = finite_result (a * b)"
| "js_mul (Fin a) PosInf = (if a = 0 then NaN else inf_of_sign a)"
| "js_mul (Fin a) NegInf = (if a = 0 then NaN else inf_of_sign (- a))"
| "js_mul PosInf (Fin b) = (if b = 0 then NaN else inf_of_sign b)"
| "js_mul NegInf (Fin b) = (if b = 0 then NaN else inf_of_sign (- b))"
| "js_mul PosInf PosInf = PosInf"
| "js_mul PosInf NegInf = NegInf"
| "js_mul NegInf PosInf = NegInf"
| "js_mul NegInf NegInf = PosInf"
| "js_mul NaN y = NaN"
| "js_mul x NaN = NaN"

fun js_div :: "jsnum \<Rightarrow> jsnum \<Rightarrow> jsnum" where
  "js_div (Fin a) (Fin b) =
     (if b = 0 then (if a = 0 then NaN else inf_of_sign a) else finite_result (a / b))"
| "js_div (Fin a) PosInf = Fin 0"
| "js_div (Fin a) NegInf = Fin 0"
| "js_div PosInf (Fin b) = (if 0 \<le> b then PosInf else NegInf)"
| "js_div NegInf (Fin b) = (if 0 \<le> b then NegInf else PosInf)"
| "js_div PosInf PosInf = NaN"
| "js_div PosInf NegInf = NaN"
| "js_div NegInf PosInf = NaN"
| "js_div NegInf NegInf = NaN"
| "js_div NaN y = NaN"
| "js_div x NaN = NaN"

text \<open>The relational operators \<open><\<close>, \<open>>\<close>, \<open><=\<close> and strict equality \<open>===\<close>.\<close>

fun js_lt :: "jsnum \<Rightarrow> jsnum \<Rightarrow> bool" where
  "js_lt (Fin a) (Fin b) = (a < b)"
| "js_lt (Fin a) PosInf = True"
| "js_lt (Fin a) NegInf = False"
| "js_lt PosInf y = False"
| "js_lt NegInf (Fin b) = True"
| "js_lt NegInf PosInf = True"
| "js_lt NegInf NegInf = False"
| "js_lt NegInf NaN = False"
| "js_lt NaN y = False"
| "js_lt (Fin a) NaN = False"

definition js_gt :: "jsnum \<Rightarrow> jsnum \<Rightarrow> bool" where
  "js_gt x y = js_lt y x"

definition js_seq :: "jsnum \<Rightarrow> jsnum \<Rightarrow> bool" where
  "js_seq x y = (x \<noteq> NaN \<and> y \<noteq> NaN \<and> x = y)"

definition js_le :: "jsnum \<Rightarrow> jsnum \<Rightarrow> bool" where
  "js_le x y = (js_lt x y \<or> js_seq x y)"

fun Math_abs :: "jsnum \<Rightarrow> jsnum" where
  "Math_abs (Fin a) = Fin \<bar>a\<bar>"
| "Math_abs PosInf = PosInf"
| "Math_abs NegInf = PosInf"
| "Math_abs NaN = NaN"

text \<open>
  \<open>Math.min(...xs)\<close> and \<open>Math.max(...xs)\<close>: NaN as soon as one argument is NaN,
  and the neutral infinity for no argument at all.
\<close>

definition min2 :: "jsnum \<Rightarrow> jsnum \<Rightarrow> jsnum" where
  "min2 x y = (if x = NaN \<or> y = NaN then NaN else if js_lt y x then y else x)"

definition max2 :: "jsnum \<Rightarrow> jsnum \<Rightarrow> jsnum" where
  "max2 x y = (if x = NaN \<or> y = NaN then NaN else if js_lt x y then y else x)"

definition Math_min :: "jsnum list \<Rightarrow> jsnum" where
  "Math_min xs = foldl min2 PosInf xs"

definition Math_max :: "jsnum list \<Rightarrow> jsnum" where
  "Math_max xs = foldl max2 NegInf xs"

section \<open>Arrays\<close>

text \<open>\<open>xs[i]\<close>: \<open>undefined\<close> outside the array, never an exception.\<close>

definition js_index :: "jsnum list \<Rightarrow> int \<Rightarrow> jsval" where
  "js_index xs i = (if 0 \<le> i \<and> i < int (length xs) then Number (xs ! nat i) else Undefined)"

text \<open>
  \<open>xs.slice(-n)\<close> for a count \<open>n\<close>: the last \<open>n\<close> elements, the whole array when it
  has fewer, and also the whole array for \<open>n = 0\<close>, since \<open>-0\<close> is the start index 0.
\<close>

definition slice_last :: "nat \<Rightarrow> 'a list \<Rightarrow> 'a list" where
  "slice_last n xs = (if n = 0 then xs else drop (length xs - n) xs)"

text \<open>\<open>xs.reduce((a, b) => a + b, 0)\<close>\<close>

definition reduce_add :: "jsnum list \<Rightarrow> jsnum" where
  "reduce_add xs = foldl js_add (Fin 0) xs"

section \<open>The indicator library (services/yahooFinance.js)\<close>

definition calculatePriceChange :: "jsnum list \<Rightarrow> nat \<Rightarrow> jsnum" where
  "calculatePriceChange prices days =
     (if length prices < days then Fin 0
      else
        let current = to_number (js_index prices (int (length prices) - 1));
            previous = to_number (js_index prices (int (length prices) - int days - 1))
        in js_mul (js_div (js_sub current previous) previous) (Fin 100))"

definition calculateSMA :: "jsnum list \<Rightarrow> nat \<Rightarrow> jsnum" where
  "calculateSMA prices period =
     (if length prices < period then Fin 0
      else
        let recentPrices = slice_last period prices
        in js_div (reduce_add recentPrices) (Fin (of_nat (length recentPrices))))"

text \<open>
  The loop of \<open>calculateRSI\<close> pushes, for \<open>i = 1 .. length - 1\<close>, the change
  \<open>prices[i] - prices[i - 1]\<close> into \<open>gains\<close> when positive and its absolute value into
  \<open>losses\<close> when negative (zero otherwise).
\<close>

fun changes :: "jsnum list \<Rightarrow> jsnum list" where
  "changes (a # b # rest) = js_sub b a # changes (b # rest)"
| "changes [a] = []"
| "changes [] = []"

definition gain :: "jsnum \<Rightarrow> jsnum" where
  "gain change = (if js_gt change (Fin 0) then change else Fin 0)"

definition loss :: "jsnum \<Rightarrow> jsnum" where
  "loss change = (if js_lt change (Fin 0) then Math_abs change else Fin 0)"

definition avgGain :: "jsnum list \<Rightarrow> nat \<Rightarrow> jsnum" where
  "avgGain prices period =
     js_div (reduce_add (slice_last period (map gain (changes prices)))) (Fin (of_nat period))"

definition avgLoss :: "jsnum list \<Rightarrow> nat \<Rightarrow> jsnum" where
  "avgLoss prices period =
     js_div (reduce_add (slice_last period (map loss (changes prices)))) (Fin (of_nat period))"

definition calculateRSI :: "jsnum list \<Rightarrow> nat \<Rightarrow> jsnum" where
  "calculateRSI prices period =
     (if length prices < period + 1 then Fin 50
      else if js_seq (avgLoss prices period) (Fin 0) then Fin 100
      else
        let rs = js_div (avgGain prices period) (avgLoss prices period)
        in js_sub (Fin 100) (js_div (Fin 100) (js_add (Fin 1) rs)))"

definition calculateSupportLevel :: "jsnum list \<Rightarrow> jsval" where
  "calculateSupportLevel prices =
     (if length prices < 20 then js_index prices (int (length prices) - 1)
      else
        let recentPrices = slice_last 20 prices
        in Number (Math_min recentPrices))"

definition calculateResistanceLevel :: "jsnum list \<Rightarrow> jsval" where
  "calculateResistanceLevel prices =
     (if length prices < 20 then js_index prices (int (length prices) - 1)
      else
        let recentPrices = slice_last 20 prices
        in Number (Math_max recentPrices))"

section \<open>The quote cache and the quote fetch (services/yahooFinance.js)\<close>

text \<open>
  \<open>Date.now()\<close> in milliseconds. An ISO timestamp (\<open>new Date().toISOString()\<close>) is
  kept as the instant it renders.
\<close>

type_synonym time = int

text \<open>
  What the external provider answers to \<open>quote(symbol)\<close>: the fields that the
  operations below read. \<open>None\<close> stands for a call that throws, is rejected or
  answers with no object.
\<close>

record raw_quote =
  raw_symbol :: string
  regularMarketPrice :: jsval
  regularMarketPreviousClose :: jsval
  regularMarketChangePercent :: jsval

type_synonym provider = "string \<Rightarrow> raw_quote option"

text \<open>
  The result object of \<open>getStockQuote\<close>, again restricted to the fields read later
  (the others are copied from the provider's answer and only passed on).
\<close>

record quote =
  q_symbol :: string
  q_currentPrice :: jsval
  q_previousClose :: jsval
  q_change :: jsnum
  q_changePercent :: jsval
  q_timestamp :: time

record cache_entry =
  data :: quote
  timestamp :: time

text \<open>
  The service object: its cache (the entries under the \<open>quote_\<close> keys), and a log of
  the symbols for which \<open>yahooFinance.quote\<close> has been invoked, oldest first.
\<close>

record service =
  cache :: "string \<rightharpoonup> cache_entry"
  fetches :: "string list"

definition cacheTimeout :: int where
  "cacheTimeout = 5 * 60 * 1000"

definition getCached :: "time \<Rightarrow> string \<Rightarrow> service \<Rightarrow> quote option" where
  "getCached now key s =
     (case cache s key of
        None \<Rightarrow> None
      | Some cached \<Rightarrow> if now - timestamp cached < cacheTimeout then Some (data cached) else None)"

definition setCached :: "time \<Rightarrow> string \<Rightarrow> quote \<Rightarrow> service \<Rightarrow> service" where
  "setCached now key d s = s\<lparr>cache := (cache s)(key \<mapsto> \<lparr>data = d, timestamp = now\<rparr>)\<rparr>"

definition clearCache :: "service \<Rightarrow> service" where
  "clearCache s = s\<lparr>cache := Map.empty\<rparr>"

datatype error =
  FailedToFetchData string
| FailedToFetchMultipleQuotes
| FailedToCalculatePortfolioValue

definition quote_result :: "raw_quote \<Rightarrow> time \<Rightarrow> quote" where
  "quote_result q now =
     \<lparr>q_symbol = raw_symbol q,
      q_currentPrice = regularMarketPrice q,
      q_previousClose = regularMarketPreviousClose q,
      q_change = js_sub (to_number (regularMarketPrice q)) (to_number (regularMarketPreviousClose q)),
      q_changePercent = regularMarketChangePercent q,
      q_timestamp = now\<rparr>"

text \<open>
  \<open>getStockQuote\<close> is an async function. It runs synchronously up to its \<open>await\<close>:
  the cache is looked up at the time of the call, and on a miss the provider is
  invoked. It resumes when the provider has answered, at a later time \<open>done\<close>: on an
  answer it builds the result and stores it, on a failure it throws.
\<close>

datatype pending = Cached quote | Awaiting string

text \<open>The cache key \<open>`quote_${symbol}`\<close>.\<close>

definition quote_key :: "string \<Rightarrow> string" where
  "quote_key symbol = ''quote_'' @ symbol"

definition getStockQuote_begin :: "time \<Rightarrow> string \<Rightarrow> service \<Rightarrow> pending \<times> service" where
  "getStockQuote_begin now symbol s =
     (let cacheKey = quote_key symbol
      in case getCached now cacheKey s of
           Some cached \<Rightarrow> (Cached cached, s)
         | None \<Rightarrow> (Awaiting symbol, s\<lparr>fetches := fetches s @ [symbol]\<rparr>))"

fun getStockQuote_resume :: "provider \<Rightarrow> time \<Rightarrow> pending \<Rightarrow> service \<Rightarrow> (error + quote) \<times> service" where
  "getStockQuote_resume prov done (Cached cached) s = (Inr cached, s)"
| "getStockQuote_resume prov done (Awaiting symbol) s =
     (case prov symbol of
        None \<Rightarrow> (Inl (FailedToFetchData symbol), s)
      | Some q \<Rightarrow>
          let result = quote_result q done
          in (Inr result, setCached done (quote_key symbol) result s))"

definition getStockQuote :: "provider \<Rightarrow> time \<Rightarrow> time \<Rightarrow> string \<Rightarrow> service \<Rightarrow> (error + quote) \<times> service" where
  "getStockQuote prov now done symbol s =
     (let (p, s1) = getStockQuote_begin now symbol s
      in getStockQuote_resume prov done p s1)"

text \<open>
  \<open>getMultipleQuotes\<close> maps \<open>getStockQuote\<close> over the symbols and awaits
  \<open>Promise.all\<close>: every call is begun, in order, before any of them resumes, and the
  result is the list of quotes when all of them are fulfilled, and an error as soon as
  one is rejected. The pending calls resume all the same; they are taken to resume at
  one time \<open>done\<close>.
\<close>

fun begin_all :: "time \<Rightarrow> string list \<Rightarrow> service \<Rightarrow> pending list \<times> service" where
  "begin_all now [] s = ([], s)"
| "begin_all now (symbol # symbols) s =
     (let (p, s1) = getStockQuote_begin now symbol s;
          (ps, s2) = begin_all now symbols s1
      in (p # ps, s2))"

fun resume_all :: "provider \<Rightarrow> time \<Rightarrow> pending list \<Rightarrow> service \<Rightarrow> (error + quote) list \<times> service" where
  "resume_all prov done [] s = ([], s)"
| "resume_all prov done (p # ps) s =
     (let (r, s1) = getStockQuote_resume prov done p s;
          (rs, s2) = resume_all prov done ps s1
      in (r # rs, s2))"

fun all_fulfilled :: "(error + quote) list \<Rightarrow> quote list option" where
  "all_fulfilled [] = Some []"
| "all_fulfilled (Inl e # rs) = None"
| "all_fulfilled (Inr q # rs) = (case all_fulfilled rs of None \<Rightarrow> None | Some qs \<Rightarrow> Some (q # qs))"

definition getMultipleQuotes :: "provider \<Rightarrow> time \<Rightarrow> time \<Rightarrow> string list \<Rightarrow> service \<Rightarrow> (error + quote list) \<times> service" where
  "getMultipleQuotes prov now done symbols s =
     (let (ps, s1) = begin_all now symbols s;
          (rs, s2) = resume_all prov done ps s1
      in case all_fulfilled rs of
           None \<Rightarrow> (Inl FailedToFetchMultipleQuotes, s2)
         | Some quotes \<Rightarrow> (Inr quotes, s2))"

section \<open>Portfolio valuation (services/yahooFinance.js)\<close>

text \<open>
  A holding, as the portfolio route stores it. \<open>stock_id\<close> is its \<open>id\<close>, the creation instant (the
  source keeps its decimal rendering), \<open>purchaseDate\<close> is the date given in the request
  or else the creation instant, and \<open>entryValue\<close> is the entry's \<open>totalValue\<close> property.
\<close>

record stock =
  stock_id :: time
  symbol :: string
  shares :: jsnum
  purchasePrice :: jsnum
  purchaseDate :: "string + time"
  avgPrice :: jsnum
  currentPrice :: jsval
  entryValue :: jsnum
  gainLoss :: jsnum
  gainLossPercentage :: jsnum

text \<open>A holding of the valuation: \<open>{...holding, currentPrice, currentValue, gainLoss, ...}\<close>.\<close>

record valued = stock +
  currentValue :: jsnum
  gainLossPercent :: jsnum
  dayChange :: jsnum
  dayChangePercent :: jsval

text \<open>
  The returned object. \<open>totalCost\<close> is \<open>undefined\<close>, and the timestamp is \<open>None\<close>,
  when the object has no such property.
\<close>

record valuation =
  totalValue :: jsnum
  totalCost :: jsval
  totalGainLoss :: jsnum
  totalGainLossPercent :: jsnum
  holdings :: "valued list"
  v_timestamp :: "time option"

definition valued_holding :: "stock \<Rightarrow> quote \<Rightarrow> valued" where
  "valued_holding holding q =
     (let currentValue = js_mul (shares holding) (to_number (q_currentPrice q));
          costBasis = js_mul (shares holding) (avgPrice holding);
          gainLoss = js_sub currentValue costBasis;
          gainLossPercent = js_mul (js_div gainLoss costBasis) (Fin 100)
      in stock.extend
           (holding\<lparr>currentPrice := q_currentPrice q, gainLoss := gainLoss\<rparr>)
           (valued.fields currentValue gainLossPercent
              (js_mul (shares holding) (q_change q)) (q_changePercent q)))"

text \<open>The \<open>for\<close> loop over the holdings, with \<open>totalValue\<close>, \<open>totalCost\<close> and \<open>updatedHoldings\<close>.\<close>

fun holdings_loop :: "quote list \<Rightarrow> stock list \<Rightarrow> jsnum \<times> jsnum \<times> valued list \<Rightarrow> jsnum \<times> jsnum \<times> valued list" where
  "holdings_loop quotes [] acc = acc"
| "holdings_loop quotes (holding # rest) (total_value, total_cost, updatedHoldings) =
     (case find (\<lambda>q. q_symbol q = symbol holding) quotes of
        None \<Rightarrow> holdings_loop quotes rest (total_value, total_cost, updatedHoldings)
      | Some q \<Rightarrow>
          let v = valued_holding holding q
          in holdings_loop quotes rest
               (js_add total_value (currentValue v),
                js_add total_cost (js_mul (shares holding) (avgPrice holding)),
                updatedHoldings @ [v]))"

text \<open>
  What \<open>calculatePortfolioValue\<close> computes once the quotes have arrived: the loop,
  the totals and the returned object, stamped with the time of the return.
\<close>

definition valuation_of_quotes :: "quote list \<Rightarrow> stock list \<Rightarrow> time \<Rightarrow> valuation" where
  "valuation_of_quotes quotes hs done =
     (let (total_value, total_cost, updatedHoldings) = holdings_loop quotes hs (Fin 0, Fin 0, []);
          total_gain_loss = js_sub total_value total_cost;
          total_gain_loss_percent =
            (if js_gt total_cost (Fin 0)
             then js_mul (js_div total_gain_loss total_cost) (Fin 100) else Fin 0)
      in \<lparr>totalValue = total_value, totalCost = Number total_cost,
          totalGainLoss = total_gain_loss,
          totalGainLossPercent = total_gain_loss_percent,
          holdings = updatedHoldings, v_timestamp = Some done\<rparr>)"

definition calculatePortfolioValue :: "provider \<Rightarrow> time \<Rightarrow> time \<Rightarrow> stock list \<Rightarrow> service \<Rightarrow> (error + valuation) \<times> service" where
  "calculatePortfolioValue prov now done hs s =
     (if hs = [] then
        (Inr \<lparr>totalValue = Fin 0, totalCost = Undefined, totalGainLoss = Fin 0,
              totalGainLossPercent = Fin 0, holdings = [], v_timestamp = None\<rparr>, s)
      else
        let symbols = map symbol hs
        in case getMultipleQuotes prov now done symbols s of
             (Inl e, s1) \<Rightarrow> (Inl FailedToCalculatePortfolioValue, s1)
           | (Inr quotes, s1) \<Rightarrow> (Inr (valuation_of_quotes quotes hs done), s1))"

section \<open>Adding a stock to the portfolio (the portfolio route)\<close>

text \<open>\<open>toUpperCase\<close> on the ASCII letters (ticker symbols are ASCII).\<close>

definition upper_char :: "char \<Rightarrow> char" where
  "upper_char c =
     (if 97 \<le> (of_char c :: nat) \<and> (of_char c :: nat) \<le> 122 then char_of (of_char c - 32 :: nat) else c)"

definition toUpperCase :: "string \<Rightarrow> string" where
  "toUpperCase str = map upper_char str"

text \<open>
  The \<open>stockEntry\<close> object of \<open>POST /add\<close>, built from the request's symbol, from
  \<open>parseFloat(shares)\<close> and \<open>parseFloat(purchasePrice)\<close>, from the optional purchase
  date, and from the quote just fetched.
\<close>

definition stockEntry :: "time \<Rightarrow> string \<Rightarrow> jsnum \<Rightarrow> jsnum \<Rightarrow> string option \<Rightarrow> quote \<Rightarrow> stock" where
  "stockEntry now ticker sh price date stockQuote =
     \<lparr>stock_id = now,
      symbol = toUpperCase ticker,
      shares = sh,
      purchasePrice = price,
      purchaseDate = (case date of None \<Rightarrow> Inr now | Some d \<Rightarrow> if d = [] then Inr now else Inl d),
      avgPrice = price,
      currentPrice = q_currentPrice stockQuote,
      entryValue = js_mul sh (to_number (q_currentPrice stockQuote)),
      gainLoss = js_mul (js_sub (to_number (q_currentPrice stockQuote)) price) sh,
      gainLossPercentage =
        js_mul (js_div (js_sub (to_number (q_currentPrice stockQuote)) price) price) (Fin 100)\<rparr>"

fun findIndex :: "('a \<Rightarrow> bool) \<Rightarrow> 'a list \<Rightarrow> nat option" where
  "findIndex P [] = None"
| "findIndex P (x # xs) = (if P x then Some 0 else map_option Suc (findIndex P xs))"

text \<open>The update of an existing entry: lines 88 to 100 of the route.\<close>

definition merge_existing :: "stock \<Rightarrow> stock \<Rightarrow> quote \<Rightarrow> stock" where
  "merge_existing existing entry stockQuote =
     (let totalShares = js_add (shares existing) (shares entry);
          avgPurchasePrice =
            js_div (js_add (js_mul (shares existing) (avgPrice existing))
                           (js_mul (shares entry) (avgPrice entry))) totalShares;
          price = to_number (q_currentPrice stockQuote)
      in existing\<lparr>shares := totalShares,
                   avgPrice := avgPurchasePrice,
                   currentPrice := q_currentPrice stockQuote,
                   entryValue := js_mul totalShares price,
                   gainLoss := js_mul (js_sub price avgPurchasePrice) totalShares,
                   gainLossPercentage :=
                     js_mul (js_div (js_sub price avgPurchasePrice) avgPurchasePrice) (Fin 100)\<rparr>)"

text \<open>
  Lines 84 to 104 of the route, on the array \<open>portfolios[userId]\<close>: the entry is merged
  into the entry of the same symbol, or pushed when there is none.
\<close>

definition add_stock :: "stock list \<Rightarrow> stock \<Rightarrow> quote \<Rightarrow> stock list" where
  "add_stock portfolio entry stockQuote =
     (case findIndex (\<lambda>st. symbol st = symbol entry) portfolio of
        Some existingIndex \<Rightarrow>
          portfolio[existingIndex := merge_existing (portfolio ! existingIndex) entry stockQuote]
      | None \<Rightarrow> portfolio @ [entry])"

text \<open>
  The body of a request to \<open>POST /add\<close>. For \<open>symbol\<close> the field as sent; for \<open>shares\<close>
  and \<open>purchasePrice\<close> \<open>None\<close> when the field is absent or falsy, and otherwise its
  \<open>parseFloat\<close>; the purchase date when one is sent.
\<close>

record add_body =
  b_symbol :: "string option"
  b_shares :: "jsnum option"
  b_purchasePrice :: "jsnum option"
  b_purchaseDate :: "string option"

text \<open>
  The handler reads and writes \<open>portfolios[userId]\<close>. The route file declares no
  variable \<open>portfolios\<close>: the binding is a parameter of the model, \<open>None\<close> when there is
  none (evaluating \<open>portfolios\<close> then throws a ReferenceError, which the handler catches
  and answers with status 500), and otherwise the object from user ids to arrays.
\<close>

type_synonym store = "string \<rightharpoonup> stock list"

datatype response =
  Status400
| Status500
| Status201 "valued list" jsnum jsnum jsnum

text \<open>
  \<open>router.post('/add')\<close> for an authenticated user. The request arrives at time \<open>now\<close>,
  the quote of the symbol at \<open>done\<close>, and the valuation of the updated portfolio at
  \<open>done2\<close>. The result is the response, the binding of \<open>portfolios\<close> and the service.
\<close>

definition post_add :: "provider \<Rightarrow> time \<Rightarrow> time \<Rightarrow> time \<Rightarrow> string \<Rightarrow> add_body \<Rightarrow> store option \<Rightarrow> service
    \<Rightarrow> response \<times> store option \<times> service" where
  "post_add prov now done done2 userId body portfolios s =
     (case (b_symbol body, b_shares body, b_purchasePrice body) of
        (Some ticker, Some sh, Some price) \<Rightarrow>
          if ticker = [] then (Status400, portfolios, s)
          else
            (case getStockQuote prov now done (toUpperCase ticker) s of
               (Inl e, s1) \<Rightarrow> (Status500, portfolios, s1)
             | (Inr stockQuote, s1) \<Rightarrow>
                 let entry = stockEntry done ticker sh price (b_purchaseDate body) stockQuote
                 in case portfolios of
                      None \<Rightarrow> (Status500, None, s1)
                    | Some st \<Rightarrow>
                        let portfolio = (case st userId of None \<Rightarrow> [] | Some xs \<Rightarrow> xs);
                            updated = add_stock portfolio entry stockQuote;
                            st' = st(userId \<mapsto> updated)
                        in case calculatePortfolioValue prov done done2 updated s1 of
                             (Inl e, s2) \<Rightarrow> (Status500, Some st', s2)
                           | (Inr v, s2) \<Rightarrow>
                               (Status201 (holdings v) (totalValue v) (totalGainLoss v)
                                  (totalGainLossPercent v),
                                Some st', s2))
      | _ \<Rightarrow> (Status400, portfolios, s))"

section \<open>Notions used in the statements\<close>

text \<open>A number that is not negative: a finite one, or the positive infinity.\<close>

fun nonneg_ext :: "jsnum \<Rightarrow> bool" where
  "nonneg_ext (Fin r) = (0 \<le> r)"
| "nonneg_ext PosInf = True"
| "nonneg_ext NegInf = False"
| "nonneg_ext NaN = False"

text \<open>A service that has just been created, and the provider and holding of the scenarios.\<close>

definition fresh_service :: service where
  "fresh_service = \<lparr>cache = Map.empty, fetches = []\<rparr>"

definition example_raw :: raw_quote where
  "example_raw =
     \<lparr>raw_symbol = ''X'', regularMarketPrice = Number (Fin 60),
      regularMarketPreviousClose = Number (Fin 58),
      regularMarketChangePercent = Number (Fin (345 / 100))\<rparr>"

definition example_provider :: provider where
  "example_provider ticker = (if ticker = ''X'' then Some example_raw else None)"

definition example_holding :: "string \<Rightarrow> rat \<Rightarrow> rat \<Rightarrow> stock" where
  "example_holding ticker sh price =
     \<lparr>stock_id = 0, symbol = ticker, shares = Fin sh, purchasePrice = Fin price,
      purchaseDate = Inr 0, avgPrice = Fin price, currentPrice = Undefined,
      entryValue = Fin 0, gainLoss = Fin 0, gainLossPercentage = Fin 0\<rparr>"

text \<open>A store that holds 10 shares of X at 100 for the user \<open>u\<close>.\<close>

definition example_store :: store where
  "example_store = [''u'' \<mapsto> [example_holding ''X'' 10 100]]"

text \<open>
  The quote that a call of \<open>getStockQuote\<close> at time \<open>now\<close>, resumed at time \<open>done\<close>,
  resolves to: the cached one while it is fresh, otherwise the provider's answer.
  \<open>None\<close> means that the fetch fails.
\<close>

definition resolved_quote :: "provider \<Rightarrow> time \<Rightarrow> time \<Rightarrow> service \<Rightarrow> string \<Rightarrow> quote option" where
  "resolved_quote prov now done s ticker =
     (case getCached now (quote_key ticker) s of
        Some cached \<Rightarrow> Some cached
      | None \<Rightarrow> map_option (\<lambda>q. quote_result q done) (prov ticker))"

text \<open>
  The holdings that find a quote of their symbol among \<open>quotes\<close>, each valued with the
  first such quote; the others are left out.
\<close>

definition valued_list :: "quote list \<Rightarrow> stock list \<Rightarrow> valued list" where
  "valued_list quotes hs =
     List.map_filter
       (\<lambda>h. map_option (valued_holding h) (find (\<lambda>q. q_symbol q = symbol h) quotes)) hs"

text \<open>Every cached quote carries what the provider answers for its symbol.\<close>

definition cache_agrees :: "provider \<Rightarrow> service \<Rightarrow> bool" where
  "cache_agrees prov s \<longleftrightarrow>
     (\<forall>ticker e. cache s (quote_key ticker) = Some e \<longrightarrow>
        (\<exists>q. prov ticker = Some q \<and> data e = quote_result q (q_timestamp (data e))))"

text \<open>A result without the time stamp of the valuation.\<close>

definition unstamped :: "error + valuation \<Rightarrow> error + valuation" where
  "unstamped r = map_sum id (\<lambda>v. v\<lparr>v_timestamp := None\<rparr>) r"

text \<open>The shares and the average price recorded for a symbol in a portfolio.\<close>

definition position :: "string \<Rightarrow> stock list \<Rightarrow> (jsnum \<times> jsnum) option" where
  "position ticker portfolio =
     map_option (\<lambda>st. (shares st, avgPrice st)) (find (\<lambda>st. symbol st = ticker) portfolio)"

text \<open>The same for the portfolio that a bound store keeps for a user.\<close>

definition holding_of :: "store option \<Rightarrow> string \<Rightarrow> string \<Rightarrow> (jsnum \<times> jsnum) option" where
  "holding_of portfolios userId ticker =
     (case portfolios of
        None \<Rightarrow> None
      | Some st \<Rightarrow> position ticker (case st userId of None \<Rightarrow> [] | Some xs \<Rightarrow> xs))"

text \<open>Both recorded values are finite.\<close>

fun finite_position :: "(jsnum \<times> jsnum) option \<Rightarrow> bool" where
  "finite_position (Some (Fin sh, Fin price)) = True"
| "finite_position other = False"

text \<open>A request that carries all the fields.\<close>

definition add_request :: "string \<Rightarrow> jsnum \<Rightarrow> jsnum \<Rightarrow> string option \<Rightarrow> add_body" where
  "add_request ticker sh price date =
     \<lparr>b_symbol = Some ticker, b_shares = Some sh, b_purchasePrice = Some price,
      b_purchaseDate = date\<rparr>"

text \<open>
  Requests of one user handled one after the other, each with its three times; the
  result is the binding of \<open>portfolios\<close> and the service after the last.
\<close>

fun post_adds :: "provider \<Rightarrow> string \<Rightarrow> ((time \<times> time \<times> time) \<times> add_body) list \<Rightarrow> store option \<Rightarrow> service
    \<Rightarrow> store option \<times> service" where
  "post_adds prov userId [] portfolios s = (portfolios, s)"
| "post_adds prov userId (((now, done, done2), body) # rest) portfolios s =
     (case post_add prov now done done2 userId body portfolios s of
        (r, portfolios1, s1) \<Rightarrow> post_adds prov userId rest portfolios1 s1)"




text \<open>What a begun call of \<open>getStockQuote\<close> resolves to when it resumes.\<close>

definition outcome :: "provider \<Rightarrow> time \<Rightarrow> pending \<Rightarrow> error + quote" where
  "outcome prov done p =
     (case p of
        Cached c \<Rightarrow> Inr c
      | Awaiting t \<Rightarrow>
          (case prov t of None \<Rightarrow> Inl (FailedToFetchData t) | Some q \<Rightarrow> Inr (quote_result q done)))"

text \<open>A quote without the time of its fetch.\<close>

definition quote_core :: "quote \<Rightarrow> quote" where
  "quote_core q = q\<lparr>q_timestamp := 0\<rparr>"

text \<open>
  The shares and the average price after an addition of \<open>sh\<close> shares at \<open>price\<close>
  to a recorded position, or to none.
\<close>

fun weighted :: "(jsnum \<times> jsnum) option \<Rightarrow> jsnum \<Rightarrow> jsnum \<Rightarrow> jsnum \<times> jsnum" where
  "weighted None sh price = (sh, price)"
| "weighted (Some (oldShares, oldAvgPrice)) sh price =
     (js_add oldShares sh,
      js_div (js_add (js_mul oldShares oldAvgPrice) (js_mul sh price)) (js_add oldShares sh))"

section \<open>Facts about the arithmetic and the arrays\<close>

lemma is_fin_iff: "is_fin x \<longleftrightarrow> (\<exists>r. x = Fin r)"
  by (cases x) auto

lemma nonneg_ext_iff: "nonneg_ext x \<longleftrightarrow> x = PosInf \<or> (\<exists>r. x = Fin r \<and> 0 \<le> r)"
  by (cases x) auto

lemma threshold_large: "1000000 < overflow_threshold"
  by (simp add: overflow_threshold_def)

lemma finite_result_small: "\<bar>r\<bar> \<le> 1000000 \<Longrightarrow> finite_result r = Fin r"
  using threshold_large by (auto simp: finite_result_def)

lemma finite_result_Fin: "finite_result r = Fin q \<Longrightarrow> q = r"
  by (auto simp: finite_result_def split: if_splits)


lemma js_add_commute: "js_add x y = js_add y x"
  by (cases x; cases y) (auto simp: add.commute)

lemma js_mul_commute: "js_mul x y = js_mul y x"
  by (cases x; cases y) (auto simp: mult.commute)

lemma js_add_NaN: "js_add x NaN = NaN"
  by (cases x) simp_all



lemma js_le_fin: "js_le (Fin a) (Fin b) \<longleftrightarrow> a \<le> b"
  by (auto simp: js_le_def js_seq_def)

lemma min2_fin: "min2 (Fin a) (Fin b) = Fin (min a b)"
  by (auto simp: min2_def)

lemma max2_fin: "max2 (Fin a) (Fin b) = Fin (max a b)"
  by (auto simp: max2_def)

lemma foldl_min2_fin: "foldl min2 (Fin a) (map Fin rs) = Fin (Min (insert a (set rs)))"
proof (induction rs arbitrary: a)
  case Nil
  then show ?case by simp
next
  case (Cons r rs)
  have "Min (insert (min a r) (set rs)) = Min (insert a (insert r (set rs)))"
    by (cases "rs = []") (simp_all add: min.assoc)
  then show ?case by (simp add: min2_fin Cons.IH)
qed

lemma foldl_max2_fin: "foldl max2 (Fin a) (map Fin rs) = Fin (Max (insert a (set rs)))"
proof (induction rs arbitrary: a)
  case Nil
  then show ?case by simp
next
  case (Cons r rs)
  have "Max (insert (max a r) (set rs)) = Max (insert a (insert r (set rs)))"
    by (cases "rs = []") (simp_all add: max.assoc)
  then show ?case by (simp add: max2_fin Cons.IH)
qed

lemma Math_min_fin: "rs \<noteq> [] \<Longrightarrow> Math_min (map Fin rs) = Fin (Min (set rs))"
  by (cases rs) (simp_all add: Math_min_def min2_def foldl_min2_fin)

lemma Math_max_fin: "rs \<noteq> [] \<Longrightarrow> Math_max (map Fin rs) = Fin (Max (set rs))"
  by (cases rs) (simp_all add: Math_max_def max2_def foldl_max2_fin)

lemma js_index_last:
  "prices \<noteq> [] \<Longrightarrow> js_index prices (int (length prices) - 1) = Number (last prices)"
  by (cases prices rule: rev_cases) (simp_all add: js_index_def nat_diff_distrib' nth_append)

lemma js_index_empty: "js_index [] i = Undefined"
  by (simp add: js_index_def)

lemma last_not_NaN: "prices \<noteq> [] \<Longrightarrow> list_all is_fin prices \<Longrightarrow> last prices \<noteq> NaN"
proof
  assume a: "prices \<noteq> []" "list_all is_fin prices" "last prices = NaN"
  then have "is_fin (last prices)" by (metis last_in_set list_all_iff)
  with a(3) show False by simp
qed

section \<open>Percentage price change\<close>

lemma calculatePriceChange_long:
  assumes "days < length prices"
  shows "calculatePriceChange prices days =
           js_mul (js_div (js_sub (last prices) (prices ! (length prices - 1 - days)))
                          (prices ! (length prices - 1 - days))) (Fin 100)"
proof -
  have ne: "prices \<noteq> []" using assms by auto
  have i: "nat (int (length prices) - int days - 1) = length prices - 1 - days"
    using assms by linarith
  have "js_index prices (int (length prices) - int days - 1) = Number (prices ! (length prices - 1 - days))"
    using assms by (simp add: js_index_def i)
  then show ?thesis
    using assms by (simp add: calculatePriceChange_def js_index_last[OF ne] Let_def)
qed

lemma calculatePriceChange_short:
  "length prices < days \<Longrightarrow> calculatePriceChange prices days = Fin 0"
  by (simp add: calculatePriceChange_def)

lemma calculatePriceChange_boundary:
  "length prices = days \<Longrightarrow> calculatePriceChange prices days = NaN"
  by (simp add: calculatePriceChange_def js_index_def js_sub_def js_add_NaN)

lemma calculatePriceChange_scenario:
  "calculatePriceChange (map Fin [100, 102, 101, 105, 107, 106, 110]) 3 = Fin ((110 - 105) / 105 * 100)"
  by (simp add: calculatePriceChange_def js_index_def js_sub_def finite_result_small)

text \<open>
  C3. The guard of \<open>calculatePriceChange\<close> is \<open>prices.length < days\<close>. With exactly
  \<open>days\<close> prices the reference slot is \<open>prices[-1]\<close>, which is \<open>undefined\<close>, and the
  result is NaN, where the specified result for \<open>len(prices) <= daysBack\<close> is 0.
\<close>

theorem calculatePriceChange_exact_length_NaN:
  "calculatePriceChange [Fin 100, Fin 102, Fin 101] 3 = NaN"
  by (simp add: calculatePriceChange_def js_index_def js_sub_def)

section \<open>Relative strength index\<close>

















section \<open>Sentinels for short sequences\<close>

text \<open>
  C8, as the code has it. A sequence shorter than the period gives the SMA 0, one
  shorter than \<open>period + 1\<close> gives the RSI 50, and a non-empty one shorter than 20
  gives its latest price as support and as resistance, which is not NaN when the
  prices are finite. The empty sequence gives \<open>undefined\<close> as support and as
  resistance. The functions are total: no case throws.
\<close>

theorem short_sequence_sentinels:
  "(length prices < period \<longrightarrow> calculateSMA prices period = Fin 0)
 \<and> (length prices < period + 1 \<longrightarrow> calculateRSI prices period = Fin 50)
 \<and> (prices \<noteq> [] \<and> length prices < 20 \<longrightarrow>
       calculateSupportLevel prices = Number (last prices) \<and>
       calculateResistanceLevel prices = Number (last prices) \<and>
       (list_all is_fin prices \<longrightarrow> last prices \<noteq> NaN))
 \<and> (prices = [] \<longrightarrow>
       calculateSupportLevel prices = Undefined \<and> calculateResistanceLevel prices = Undefined)"
  by (auto simp: calculateSMA_def calculateRSI_def calculateSupportLevel_def
      calculateResistanceLevel_def js_index_last js_index_empty last_not_NaN)

theorem short_sequence_sentinels_witness:
  "calculateSMA [Fin 1, Fin 2] 5 = Fin 0
 \<and> calculateRSI [Fin 1, Fin 2] 14 = Fin 50
 \<and> calculateSupportLevel [Fin 1, Fin 2] = Number (Fin 2)
 \<and> calculateResistanceLevel [Fin 1, Fin 2] = Number (Fin 2)
 \<and> Fin 2 \<noteq> NaN
 \<and> calculateSMA [] 5 = Fin 0
 \<and> calculateRSI [] 14 = Fin 50"
  using short_sequence_sentinels [of "[Fin 1, Fin 2]" 5]
    short_sequence_sentinels [of "[Fin 1, Fin 2]" 14]
    short_sequence_sentinels [of "[]" 5] short_sequence_sentinels [of "[]" 14]
  by simp

text \<open>
  On the empty sequence the support and the resistance are \<open>prices[-1]\<close>: there is no
  latest close to return, and the value is \<open>undefined\<close>.
\<close>

theorem support_resistance_empty_undefined:
  "calculateSupportLevel [] = Undefined \<and> calculateResistanceLevel [] = Undefined"
  by (simp add: calculateSupportLevel_def calculateResistanceLevel_def js_index_def)

section \<open>Support and resistance\<close>

text \<open>
  C10. For a non-empty sequence of (finite) prices the support is at most the
  resistance. With fewer than 20 prices both are the latest price; otherwise they are
  the minimum and the maximum of the last 20 prices.
\<close>

theorem support_le_resistance:
  assumes "rs \<noteq> []"
  shows "js_le (to_number (calculateSupportLevel (map Fin rs)))
               (to_number (calculateResistanceLevel (map Fin rs)))
    \<and> (length rs < 20 \<longrightarrow>
          calculateSupportLevel (map Fin rs) = Number (Fin (last rs)) \<and>
          calculateResistanceLevel (map Fin rs) = Number (Fin (last rs)))
    \<and> (20 \<le> length rs \<longrightarrow>
          calculateSupportLevel (map Fin rs) = Number (Fin (Min (set (drop (length rs - 20) rs)))) \<and>
          calculateResistanceLevel (map Fin rs) = Number (Fin (Max (set (drop (length rs - 20) rs)))))"
proof (cases "length rs < 20")
  case True
  have "js_index (map Fin rs) (int (length (map Fin rs)) - 1) = Number (last (map Fin rs))"
    using assms by (intro js_index_last) simp
  then have "js_index (map Fin rs) (int (length rs) - 1) = Number (Fin (last rs))"
    using assms by (simp add: last_map)
  then show ?thesis using True
    by (simp add: calculateSupportLevel_def calculateResistanceLevel_def js_le_fin)
next
  case False
  let ?w = "drop (length rs - 20) rs"
  have w: "?w \<noteq> []" using False by simp
  have sl: "slice_last 20 (map Fin rs) = map Fin ?w"
    by (simp add: slice_last_def drop_map)
  have s: "calculateSupportLevel (map Fin rs) = Number (Fin (Min (set ?w)))"
    using False by (simp add: calculateSupportLevel_def sl Math_min_fin[OF w])
  have r: "calculateResistanceLevel (map Fin rs) = Number (Fin (Max (set ?w)))"
    using False by (simp add: calculateResistanceLevel_def sl Math_max_fin[OF w])
  have "Min (set ?w) \<le> Max (set ?w)"
    using w by (intro Min.coboundedI Max_in) simp_all
  then show ?thesis using False s r
    by (simp add: js_le_fin)
qed

theorem support_le_resistance_witness:
  "[3, 1, 2] \<noteq> ([] :: rat list)
 \<and> js_le (to_number (calculateSupportLevel (map Fin [3, 1, 2])))
          (to_number (calculateResistanceLevel (map Fin [3, 1, 2])))
 \<and> calculateSupportLevel (map Fin [3, 1, 2]) = Number (Fin 2)
 \<and> calculateResistanceLevel (map Fin [3, 1, 2]) = Number (Fin 2)
 \<and> calculateSupportLevel
      (map Fin [0, 9, 8, 7, 6, 5, 4, 3, 2, 1, 2, 3, 4, 5, 6, 7, 8, 9, 10, 11, 12]) = Number (Fin 1)
 \<and> calculateResistanceLevel
      (map Fin [0, 9, 8, 7, 6, 5, 4, 3, 2, 1, 2, 3, 4, 5, 6, 7, 8, 9, 10, 11, 12]) = Number (Fin 12)"
  using support_le_resistance [of "[3, 1, 2]"]
    support_le_resistance [of "[0, 9, 8, 7, 6, 5, 4, 3, 2, 1, 2, 3, 4, 5, 6, 7, 8, 9, 10, 11, 12]"]
  by (simp add: js_le_fin)

section \<open>The quote cache\<close>

lemma getCached_setCached:
  "getCached now key (setCached t key d s) = (if now - t < 5 * 60 * 1000 then Some d else None)"
  by (simp add: getCached_def setCached_def cacheTimeout_def)

lemma getCached_setCached_other:
  "key' \<noteq> key \<Longrightarrow> getCached now key' (setCached t key d s) = getCached now key' s"
  by (simp add: getCached_def setCached_def)

lemma getCached_clearCache: "getCached now key (clearCache s) = None"
  by (simp add: getCached_def clearCache_def)

lemma getStockQuote_hit:
  assumes "cache s (quote_key ticker) = Some e" "now - timestamp e < 5 * 60 * 1000"
  shows "getStockQuote prov now done ticker s = (Inr (data e), s)"
  using assms by (simp add: getStockQuote_def getStockQuote_begin_def getCached_def cacheTimeout_def)

lemma getStockQuote_miss:
  assumes "cache s (quote_key ticker) = None
         \<or> (\<exists>e. cache s (quote_key ticker) = Some e \<and> \<not> now - timestamp e < 5 * 60 * 1000)"
  shows "getStockQuote prov now done ticker s =
           (case prov ticker of
              None \<Rightarrow> (Inl (FailedToFetchData ticker), s\<lparr>fetches := fetches s @ [ticker]\<rparr>)
            | Some q \<Rightarrow>
                (Inr (quote_result q done),
                 s\<lparr>fetches := fetches s @ [ticker],
                   cache := (cache s)(quote_key ticker \<mapsto>
                              \<lparr>data = quote_result q done, timestamp = done\<rparr>)\<rparr>))"
  using assms
  by (auto simp: getStockQuote_def getStockQuote_begin_def getCached_def cacheTimeout_def
      setCached_def Let_def split: option.splits)

lemma getCached_fetches [simp]: "getCached now k (s\<lparr>fetches := f\<rparr>) = getCached now k s"
  by (simp add: getCached_def)

lemma begin_all_eq:
  "begin_all now syms s =
     (map (\<lambda>t. case getCached now (quote_key t) s of Some c \<Rightarrow> Cached c | None \<Rightarrow> Awaiting t) syms,
      s\<lparr>fetches := fetches s @ filter (\<lambda>t. getCached now (quote_key t) s = None) syms\<rparr>)"
proof (induction syms arbitrary: s)
  case Nil
  then show ?case by simp
next
  case (Cons t syms)
  show ?case
    by (cases "getCached now (quote_key t) s")
      (simp_all add: getStockQuote_begin_def Cons.IH)
qed

lemma resume_fetches: "fetches (snd (getStockQuote_resume prov done p s)) = fetches s"
  by (cases p) (simp_all add: setCached_def Let_def split: option.splits)

lemma resume_all_fetches: "fetches (snd (resume_all prov done ps s)) = fetches s"
proof (induction ps arbitrary: s)
  case Nil
  then show ?case by simp
next
  case (Cons p ps)
  show ?case
    using Cons.IH[of "snd (getStockQuote_resume prov done p s)"] resume_fetches[of prov "done" p s]
    by (simp add: split_beta)
qed

lemma getMultipleQuotes_fetches:
  "fetches (snd (getMultipleQuotes prov now done syms s)) =
     fetches s @ filter (\<lambda>t. getCached now (quote_key t) s = None) syms"
  by (simp add: getMultipleQuotes_def begin_all_eq split_beta resume_all_fetches split: option.splits)

text \<open>
  C7, as the code has it. A call of \<open>getStockQuote\<close> that finds an entry under its key
  with \<open>now - timestamp < 5 minutes\<close> returns the cached data and leaves the service as
  it is: the provider is not invoked. Otherwise (no entry, or an expired one) the
  provider is invoked exactly once; when it answers, the result is returned and stored
  under the key with the time of the store. A second call for the same key that begins
  after the first has stored, within 5 minutes of the store, returns the same data with
  no further fetch, and a second call after that time fetches again. Two calls for the
  same key that overlap, both begun before either has stored (a symbol that
  \<open>getMultipleQuotes\<close> is given twice), each invoke the provider.
\<close>

theorem quote_cache_get:
  "(cache s (quote_key ticker) = Some e \<and> now - timestamp e < 5 * 60 * 1000 \<longrightarrow>
      getStockQuote prov now done ticker s = (Inr (data e), s))
 \<and> ((cache s (quote_key ticker) = None
      \<or> (\<exists>e. cache s (quote_key ticker) = Some e \<and> \<not> now - timestamp e < 5 * 60 * 1000)) \<longrightarrow>
      fetches (snd (getStockQuote prov now done ticker s)) = fetches s @ [ticker]
    \<and> fetches (snd (getMultipleQuotes prov now done [ticker, ticker] s)) = fetches s @ [ticker, ticker]
    \<and> (prov ticker = Some q \<longrightarrow>
          fst (getStockQuote prov now done ticker s) = Inr (quote_result q done)
        \<and> cache (snd (getStockQuote prov now done ticker s)) (quote_key ticker)
            = Some \<lparr>data = quote_result q done, timestamp = done\<rparr>
        \<and> (now2 - done < 5 * 60 * 1000 \<longrightarrow>
              fst (getStockQuote prov2 now2 done2 ticker (snd (getStockQuote prov now done ticker s)))
                = Inr (quote_result q done)
            \<and> fetches (snd (getStockQuote prov2 now2 done2 ticker
                               (snd (getStockQuote prov now done ticker s))))
                = fetches s @ [ticker])
        \<and> (\<not> now2 - done < 5 * 60 * 1000 \<longrightarrow>
              fetches (snd (getStockQuote prov2 now2 done2 ticker
                               (snd (getStockQuote prov now done ticker s))))
                = fetches s @ [ticker, ticker])))"
proof (intro conjI impI)
  assume "cache s (quote_key ticker) = Some e \<and> now - timestamp e < 5 * 60 * 1000"
  then show "getStockQuote prov now done ticker s = (Inr (data e), s)"
    by (simp add: getStockQuote_hit)
next
  assume miss: "cache s (quote_key ticker) = None
      \<or> (\<exists>e. cache s (quote_key ticker) = Some e \<and> \<not> now - timestamp e < 5 * 60 * 1000)"
  note m = getStockQuote_miss[OF miss, of prov "done"]
  show "fetches (snd (getStockQuote prov now done ticker s)) = fetches s @ [ticker]"
    by (simp add: m split: option.splits)
  have "getCached now (quote_key ticker) s = None"
    using miss by (auto simp: getCached_def cacheTimeout_def)
  then show "fetches (snd (getMultipleQuotes prov now done [ticker, ticker] s))
      = fetches s @ [ticker, ticker]"
    by (simp add: getMultipleQuotes_fetches)
  assume q: "prov ticker = Some q"
  let ?s1 = "s\<lparr>fetches := fetches s @ [ticker],
                 cache := (cache s)(quote_key ticker \<mapsto>
                              \<lparr>data = quote_result q done, timestamp = done\<rparr>)\<rparr>"
  have first: "getStockQuote prov now done ticker s = (Inr (quote_result q done), ?s1)"
    by (simp add: m q)
  show "fst (getStockQuote prov now done ticker s) = Inr (quote_result q done)"
    by (simp add: first)
  show "cache (snd (getStockQuote prov now done ticker s)) (quote_key ticker)
            = Some \<lparr>data = quote_result q done, timestamp = done\<rparr>"
    by (simp add: first)
  {
    assume within: "now2 - done < 5 * 60 * 1000"
    have second: "getStockQuote prov2 now2 done2 ticker ?s1 = (Inr (quote_result q done), ?s1)"
      using within
      by (simp add: getStockQuote_hit[where e = "\<lparr>data = quote_result q done, timestamp = done\<rparr>"])
    show "fst (getStockQuote prov2 now2 done2 ticker (snd (getStockQuote prov now done ticker s)))
                = Inr (quote_result q done)"
      by (simp add: first second)
    show "fetches (snd (getStockQuote prov2 now2 done2 ticker
                               (snd (getStockQuote prov now done ticker s))))
                = fetches s @ [ticker]"
      by (simp add: first second)
  }
  {
    assume expired: "\<not> now2 - done < 5 * 60 * 1000"
    have "cache ?s1 (quote_key ticker) = None
      \<or> (\<exists>e. cache ?s1 (quote_key ticker) = Some e \<and> \<not> now2 - timestamp e < 5 * 60 * 1000)"
      using expired by simp
    note m2 = getStockQuote_miss[OF this, of prov2 done2]
    show "fetches (snd (getStockQuote prov2 now2 done2 ticker
                               (snd (getStockQuote prov now done ticker s))))
                = fetches s @ [ticker, ticker]"
      by (simp add: first m2 split: option.splits)
  }
qed

text \<open>The scenario: a fresh service, one fetch at time 0 answered at time 100.\<close>

theorem quote_cache_get_witness:
  "fst (getStockQuote example_provider 0 100 ''X'' fresh_service)
     = Inr (quote_result example_raw 100)
 \<and> fetches (snd (getStockQuote example_provider 0 100 ''X'' fresh_service)) = [''X'']
 \<and> getStockQuote example_provider 200000 200100 ''X''
      (snd (getStockQuote example_provider 0 100 ''X'' fresh_service))
     = (Inr (quote_result example_raw 100),
        snd (getStockQuote example_provider 0 100 ''X'' fresh_service))
 \<and> fetches (snd (getStockQuote example_provider 300100 300200 ''X''
      (snd (getStockQuote example_provider 0 100 ''X'' fresh_service)))) = [''X'', ''X'']"
  using quote_cache_get [of fresh_service "''X''" _ 0 example_provider 100
      example_raw 200000 _ 200100]
    quote_cache_get [of fresh_service "''X''" _ 0 example_provider 100
      example_raw 300100 example_provider 300200]
    quote_cache_get [of "snd (getStockQuote example_provider 0 100 ''X'' fresh_service)" "''X''"
      "\<lparr>data = quote_result example_raw 100, timestamp = 100\<rparr>"
      200000 example_provider 200100]
  by (simp add: fresh_service_def example_provider_def)

text \<open>
  A fresh service asked for the quotes of X and X: the two calls are for one key and
  at one time, and the provider is invoked twice.
\<close>

theorem overlapping_gets_fetch_twice:
  "fetches (snd (getMultipleQuotes example_provider 0 100 [''X'', ''X''] fresh_service))
     = [''X'', ''X'']"
  by (simp add: getMultipleQuotes_fetches getCached_def fresh_service_def)

section \<open>Fetching the quotes of a portfolio\<close>

lemma resume_fst: "fst (getStockQuote_resume prov done p s) = outcome prov done p"
  by (cases p) (simp_all add: outcome_def Let_def split: option.splits)

lemma resume_all_fst: "fst (resume_all prov done ps s) = map (outcome prov done) ps"
proof (induction ps arbitrary: s)
  case Nil
  then show ?case by simp
next
  case (Cons p ps)
  show ?case
    using Cons.IH[of "snd (getStockQuote_resume prov done p s)"] resume_fst[of prov "done" p s]
    by (simp add: split_beta)
qed

lemma all_fulfilled_map:
  assumes "\<And>t. t \<in> set syms \<Longrightarrow> r t = (case f t of None \<Rightarrow> Inl (e t) | Some q \<Rightarrow> Inr q)"
  shows "all_fulfilled (map r syms) =
           (if \<forall>t\<in>set syms. f t \<noteq> None then Some (map (\<lambda>t. the (f t)) syms) else None)"
  using assms
proof (induction syms)
  case Nil
  then show ?case by simp
next
  case (Cons t syms)
  then show ?case by (cases "f t") auto
qed

lemma getMultipleQuotes_fst:
  "fst (getMultipleQuotes prov now done syms s) =
     (if \<forall>t\<in>set syms. resolved_quote prov now done s t \<noteq> None
      then Inr (map (\<lambda>t. the (resolved_quote prov now done s t)) syms)
      else Inl FailedToFetchMultipleQuotes)"
proof -
  let ?ps = "map (\<lambda>t. case getCached now (quote_key t) s of Some c \<Rightarrow> Cached c | None \<Rightarrow> Awaiting t) syms"
  let ?s1 = "s\<lparr>fetches := fetches s @ filter (\<lambda>t. getCached now (quote_key t) s = None) syms\<rparr>"
  have rs: "fst (resume_all prov done ?ps ?s1) =
      map (\<lambda>t. outcome prov done (case getCached now (quote_key t) s of Some c \<Rightarrow> Cached c | None \<Rightarrow> Awaiting t)) syms"
    by (simp add: resume_all_fst o_def)
  have af: "all_fulfilled (fst (resume_all prov done ?ps ?s1)) =
      (if \<forall>t\<in>set syms. resolved_quote prov now done s t \<noteq> None
       then Some (map (\<lambda>t. the (resolved_quote prov now done s t)) syms) else None)"
    unfolding rs
    by (rule all_fulfilled_map[where e = FailedToFetchData])
      (auto simp: outcome_def resolved_quote_def split: option.splits)
  show ?thesis
    by (simp add: getMultipleQuotes_def begin_all_eq split_beta af split: option.splits)
qed

lemma calculatePortfolioValue_fst:
  "hs \<noteq> [] \<Longrightarrow> fst (calculatePortfolioValue prov now done hs s) =
     (case fst (getMultipleQuotes prov now done (map symbol hs) s) of
        Inl e \<Rightarrow> Inl FailedToCalculatePortfolioValue
      | Inr quotes \<Rightarrow> Inr (valuation_of_quotes quotes hs done))"
  by (simp add: calculatePortfolioValue_def split: prod.splits sum.splits)

lemma calculatePortfolioValue_snd:
  "hs \<noteq> [] \<Longrightarrow> snd (calculatePortfolioValue prov now done hs s) =
     snd (getMultipleQuotes prov now done (map symbol hs) s)"
  by (simp add: calculatePortfolioValue_def split: prod.splits sum.splits)

lemma valued_holding_kept [simp]:
  "shares (valued_holding h q) = shares h" "avgPrice (valued_holding h q) = avgPrice h"
  "symbol (valued_holding h q) = symbol h"
  by (simp_all add: valued_holding_def Let_def stock.defs valued.defs)

lemma holdings_loop_eq:
  "holdings_loop quotes hs (tv, tc, upd) =
     (foldl js_add tv (map currentValue (valued_list quotes hs)),
      foldl js_add tc (map (\<lambda>v. js_mul (shares v) (avgPrice v)) (valued_list quotes hs)),
      upd @ valued_list quotes hs)"
proof (induction hs arbitrary: tv tc upd)
  case Nil
  then show ?case by (simp add: valued_list_def List.map_filter_simps)
next
  case (Cons h hs)
  show ?case
    by (cases "find (\<lambda>q. q_symbol q = symbol h) quotes")
      (simp_all add: Cons.IH valued_list_def List.map_filter_simps Let_def)
qed

lemma valued_holding_core: "valued_holding h (quote_core q) = valued_holding h q"
  by (simp add: valued_holding_def quote_core_def)

lemma find_core:
  "find (\<lambda>q. q_symbol q = t) (map quote_core quotes) = map_option quote_core (find (\<lambda>q. q_symbol q = t) quotes)"
  by (induction quotes) (simp_all add: quote_core_def)

lemma valued_list_core: "valued_list (map quote_core quotes) hs = valued_list quotes hs"
proof -
  have "\<And>h. map_option (valued_holding h) (find (\<lambda>q. q_symbol q = symbol h) (map quote_core quotes))
      = map_option (valued_holding h) (find (\<lambda>q. q_symbol q = symbol h) quotes)"
    by (simp add: find_core option.map_comp o_def valued_holding_core)
  then show ?thesis by (simp add: valued_list_def)
qed

lemma valuation_of_quotes_eq:
  "valuation_of_quotes quotes hs done =
     (let vs = valued_list quotes hs;
          total_value = foldl js_add (Fin 0) (map currentValue vs);
          total_cost = foldl js_add (Fin 0) (map (\<lambda>v. js_mul (shares v) (avgPrice v)) vs)
      in \<lparr>totalValue = total_value, totalCost = Number total_cost,
          totalGainLoss = js_sub total_value total_cost,
          totalGainLossPercent =
            (if js_gt total_cost (Fin 0)
             then js_mul (js_div (js_sub total_value total_cost) total_cost) (Fin 100) else Fin 0),
          holdings = vs, v_timestamp = Some done\<rparr>)"
  by (simp add: valuation_of_quotes_def holdings_loop_eq Let_def)

lemma valuation_of_quotes_core:
  "(valuation_of_quotes quotes hs t)\<lparr>v_timestamp := None\<rparr>
     = (valuation_of_quotes (map quote_core quotes) hs t')\<lparr>v_timestamp := None\<rparr>"
  by (simp add: valuation_of_quotes_eq valued_list_core Let_def)

lemma quote_key_inj [simp]: "quote_key a = quote_key b \<longleftrightarrow> a = b"
  by (simp add: quote_key_def)

lemma resolved_core:
  assumes "cache_agrees prov s"
  shows "map_option quote_core (resolved_quote prov now done s t)
           = map_option (\<lambda>q. quote_result q 0) (prov t)"
proof (cases "getCached now (quote_key t) s")
  case None
  then show ?thesis
    by (cases "prov t") (simp_all add: resolved_quote_def quote_core_def quote_result_def)
next
  case (Some c)
  then obtain e where e: "cache s (quote_key t) = Some e" "data e = c"
    by (auto simp: getCached_def split: option.splits if_splits)
  with assms obtain q where q: "prov t = Some q" "c = quote_result q (q_timestamp c)"
    by (auto simp: cache_agrees_def)
  have "quote_core c = quote_result q 0"
    by (subst q(2)) (simp add: quote_core_def quote_result_def)
  then show ?thesis using Some q(1) by (simp add: resolved_quote_def)
qed

lemma resolved_None_iff:
  assumes "cache_agrees prov s"
  shows "resolved_quote prov now done s t = None \<longleftrightarrow> prov t = None"
  using resolved_core[OF assms, of now "done" t] by (metis option.map_disc_iff)

lemma resolved_the_core:
  assumes "cache_agrees prov s" "prov t \<noteq> None"
  shows "quote_core (the (resolved_quote prov now done s t)) = quote_result (the (prov t)) 0"
  using resolved_core[OF assms(1), of now "done" t] assms(2)
  by (cases "resolved_quote prov now done s t"; cases "prov t") simp_all

lemma unstamped_calculatePortfolioValue:
  assumes "cache_agrees prov s"
  shows "unstamped (fst (calculatePortfolioValue prov now done hs s)) =
     (if hs = [] then Inr \<lparr>totalValue = Fin 0, totalCost = Undefined, totalGainLoss = Fin 0,
              totalGainLossPercent = Fin 0, holdings = [], v_timestamp = None\<rparr>
      else if \<forall>h\<in>set hs. prov (symbol h) \<noteq> None
      then Inr ((valuation_of_quotes (map (\<lambda>h. quote_result (the (prov (symbol h))) 0) hs) hs 0)
                  \<lparr>v_timestamp := None\<rparr>)
      else Inl FailedToCalculatePortfolioValue)"
proof (cases "hs = []")
  case True
  then show ?thesis by (simp add: calculatePortfolioValue_def unstamped_def)
next
  case ne: False
  show ?thesis
  proof (cases "\<forall>h\<in>set hs. prov (symbol h) \<noteq> None")
    case True
    then have all: "\<forall>t\<in>set (map symbol hs). resolved_quote prov now done s t \<noteq> None"
      using resolved_None_iff[OF assms] by simp
    let ?qs = "map (\<lambda>t. the (resolved_quote prov now done s t)) (map symbol hs)"
    have m: "map quote_core ?qs = map (\<lambda>h. quote_result (the (prov (symbol h))) 0) hs"
      using True by (simp add: resolved_the_core[OF assms] o_def)
    have "(valuation_of_quotes ?qs hs done)\<lparr>v_timestamp := None\<rparr>
        = (valuation_of_quotes (map quote_core ?qs) hs 0)\<lparr>v_timestamp := None\<rparr>"
      by (rule valuation_of_quotes_core)
    then have "(valuation_of_quotes ?qs hs done)\<lparr>v_timestamp := None\<rparr>
        = (valuation_of_quotes (map (\<lambda>h. quote_result (the (prov (symbol h))) 0) hs) hs 0)\<lparr>v_timestamp := None\<rparr>"
      by (simp only: m)
    then show ?thesis
      using ne True all
      by (simp add: calculatePortfolioValue_fst getMultipleQuotes_fst unstamped_def)
  next
    case False
    then have "\<not> (\<forall>t\<in>set (map symbol hs). resolved_quote prov now done s t \<noteq> None)"
      using resolved_None_iff[OF assms] by simp
    then show ?thesis
      using ne False
      by (simp add: calculatePortfolioValue_fst getMultipleQuotes_fst unstamped_def)
  qed
qed

lemma cache_fetches_update [simp]: "cache_agrees prov (s\<lparr>fetches := f\<rparr>) = cache_agrees prov s"
  by (simp add: cache_agrees_def)

lemma resume_agrees:
  "cache_agrees prov s \<Longrightarrow> cache_agrees prov (snd (getStockQuote_resume prov done p s))"
proof (cases p)
  case (Cached c)
  assume "cache_agrees prov s"
  then show ?thesis using Cached by simp
next
  case (Awaiting t)
  assume a: "cache_agrees prov s"
  show ?thesis
  proof (cases "prov t")
    case None
    then show ?thesis using a Awaiting by simp
  next
    case (Some q)
    then show ?thesis using a Awaiting
      by (auto simp: cache_agrees_def setCached_def Let_def quote_result_def)
  qed
qed

lemma resume_all_agrees:
  "cache_agrees prov s \<Longrightarrow> cache_agrees prov (snd (resume_all prov done ps s))"
proof (induction ps arbitrary: s)
  case Nil
  then show ?case by simp
next
  case (Cons p ps)
  from Cons.IH[OF resume_agrees[OF Cons.prems, of "done" p]]
  show ?case by (simp add: split_beta)
qed

lemma getMultipleQuotes_agrees:
  "cache_agrees prov s \<Longrightarrow> cache_agrees prov (snd (getMultipleQuotes prov now done syms s))"
  using resume_all_agrees[of prov "snd (begin_all now syms s)" "done" "fst (begin_all now syms s)"]
  by (simp add: getMultipleQuotes_def split_beta begin_all_eq split: option.splits)

lemma calculatePortfolioValue_agrees:
  "cache_agrees prov s \<Longrightarrow> cache_agrees prov (snd (calculatePortfolioValue prov now done hs s))"
  by (cases "hs = []")
    (simp_all add: calculatePortfolioValue_snd getMultipleQuotes_agrees, simp add: calculatePortfolioValue_def)


section \<open>Valuation of a portfolio\<close>

lemma valued_holding_figures:
  "currentPrice (valued_holding h q) = q_currentPrice q"
  "currentValue (valued_holding h q) = js_mul (shares h) (to_number (q_currentPrice q))"
  "gainLoss (valued_holding h q) =
     js_sub (js_mul (shares h) (to_number (q_currentPrice q))) (js_mul (shares h) (avgPrice h))"
  "gainLossPercent (valued_holding h q) =
     js_mul (js_div (js_sub (js_mul (shares h) (to_number (q_currentPrice q)))
                            (js_mul (shares h) (avgPrice h)))
                    (js_mul (shares h) (avgPrice h))) (Fin 100)"
  "dayChange (valued_holding h q) = js_mul (shares h) (q_change q)"
  "dayChangePercent (valued_holding h q) = q_changePercent q"
  by (simp_all add: valued_holding_def Let_def stock.defs valued.defs)

lemma valued_list_figures:
  assumes "v \<in> set (valued_list quotes hs)"
  shows "currentValue v = js_mul (shares v) (to_number (currentPrice v))
       \<and> gainLoss v = js_sub (currentValue v) (js_mul (shares v) (avgPrice v))
       \<and> gainLossPercent v = js_mul (js_div (gainLoss v) (js_mul (shares v) (avgPrice v))) (Fin 100)"
proof -
  from assms obtain h q where "v = valued_holding h q"
    by (auto simp: valued_list_def List.map_filter_def)
  then show ?thesis by (simp add: valued_holding_figures)
qed

text \<open>
  C1, as the code has it. When the quote of some holding's symbol is neither served
  from the cache nor answered by the provider, the whole valuation fails. When every
  symbol resolves to a quote, the valuation succeeds: the returned holdings are the
  holdings that find a quote carrying their symbol, in order, the others are left out
  of the list and of the totals, \<open>totalValue\<close> and \<open>totalCost\<close> are the sums over the
  returned holdings, and each returned holding has its figures computed from its own
  shares, average price and current price.
\<close>

theorem valuation_fails_or_excludes:
  "(h \<in> set hs \<and> getCached now (quote_key (symbol h)) s = None \<and> prov (symbol h) = None \<longrightarrow>
      fst (calculatePortfolioValue prov now done hs s) = Inl FailedToCalculatePortfolioValue)
 \<and> (hs \<noteq> [] \<and> (\<forall>h\<in>set hs. resolved_quote prov now done s (symbol h) \<noteq> None) \<longrightarrow>
      (let quotes = map (\<lambda>h. the (resolved_quote prov now done s (symbol h))) hs;
           v = valuation_of_quotes quotes hs done
       in fst (calculatePortfolioValue prov now done hs s) = Inr v
        \<and> holdings v = valued_list quotes hs
        \<and> totalValue v = foldl js_add (Fin 0) (map currentValue (holdings v))
        \<and> totalCost v =
            Number (foldl js_add (Fin 0) (map (\<lambda>x. js_mul (shares x) (avgPrice x)) (holdings v)))
        \<and> (\<forall>x\<in>set (holdings v).
              currentValue x = js_mul (shares x) (to_number (currentPrice x))
            \<and> gainLoss x = js_sub (currentValue x) (js_mul (shares x) (avgPrice x))
            \<and> gainLossPercent x =
                js_mul (js_div (gainLoss x) (js_mul (shares x) (avgPrice x))) (Fin 100))))"
proof (intro conjI impI)
  assume a: "h \<in> set hs \<and> getCached now (quote_key (symbol h)) s = None \<and> prov (symbol h) = None"
  then have ne: "hs \<noteq> []" by auto
  from a have "resolved_quote prov now done s (symbol h) = None"
    by (simp add: resolved_quote_def)
  with a have "\<not> (\<forall>t\<in>set (map symbol hs). resolved_quote prov now done s t \<noteq> None)"
    by auto
  then show "fst (calculatePortfolioValue prov now done hs s) = Inl FailedToCalculatePortfolioValue"
    by (simp add: calculatePortfolioValue_fst[OF ne] getMultipleQuotes_fst)
next
  assume a: "hs \<noteq> [] \<and> (\<forall>h\<in>set hs. resolved_quote prov now done s (symbol h) \<noteq> None)"
  then have all: "\<forall>t\<in>set (map symbol hs). resolved_quote prov now done s t \<noteq> None" by simp
  define quotes where "quotes = map (\<lambda>h. the (resolved_quote prov now done s (symbol h))) hs"
  have r: "fst (calculatePortfolioValue prov now done hs s) = Inr (valuation_of_quotes quotes hs done)"
    using a all by (simp add: calculatePortfolioValue_fst getMultipleQuotes_fst quotes_def o_def)
  have h: "holdings (valuation_of_quotes quotes hs done) = valued_list quotes hs"
    by (simp add: valuation_of_quotes_eq Let_def)
  have tv: "totalValue (valuation_of_quotes quotes hs done)
      = foldl js_add (Fin 0) (map currentValue (valued_list quotes hs))"
    by (simp add: valuation_of_quotes_eq Let_def)
  have tc: "totalCost (valuation_of_quotes quotes hs done)
      = Number (foldl js_add (Fin 0) (map (\<lambda>x. js_mul (shares x) (avgPrice x)) (valued_list quotes hs)))"
    by (simp add: valuation_of_quotes_eq Let_def)
  show "let quotes = map (\<lambda>h. the (resolved_quote prov now done s (symbol h))) hs;
           v = valuation_of_quotes quotes hs done
       in fst (calculatePortfolioValue prov now done hs s) = Inr v
        \<and> holdings v = valued_list quotes hs
        \<and> totalValue v = foldl js_add (Fin 0) (map currentValue (holdings v))
        \<and> totalCost v =
            Number (foldl js_add (Fin 0) (map (\<lambda>x. js_mul (shares x) (avgPrice x)) (holdings v)))
        \<and> (\<forall>x\<in>set (holdings v).
              currentValue x = js_mul (shares x) (to_number (currentPrice x))
            \<and> gainLoss x = js_sub (currentValue x) (js_mul (shares x) (avgPrice x))
            \<and> gainLossPercent x =
                js_mul (js_div (gainLoss x) (js_mul (shares x) (avgPrice x))) (Fin 100))"
    unfolding Let_def quotes_def[symmetric]
    using r h tv tc valued_list_figures[of _ quotes hs] by simp
qed

lemma resolved_fresh:
  "resolved_quote prov now done fresh_service t = map_option (\<lambda>q. quote_result q done) (prov t)"
  by (simp add: resolved_quote_def getCached_def fresh_service_def)

lemma resolved_answered:
  "prov t \<noteq> None \<Longrightarrow> resolved_quote prov now done s t \<noteq> None"
  by (cases "getCached now (quote_key t) s") (simp_all add: resolved_quote_def)

lemma example_holding_fields:
  "symbol (example_holding t sh price) = t"
  "shares (example_holding t sh price) = Fin sh"
  "avgPrice (example_holding t sh price) = Fin price"
  by (simp_all add: example_holding_def)

lemma example_quote_fields:
  "q_symbol (quote_result example_raw t) = ''X''"
  "q_currentPrice (quote_result example_raw t) = Number (Fin 60)"
  "q_change (quote_result example_raw t) = Fin 2"
  "q_changePercent (quote_result example_raw t) = Number (Fin (345 / 100))"
  by (simp_all add: quote_result_def example_raw_def js_sub_def finite_result_small)

lemma example_valuation:
  "fst (calculatePortfolioValue example_provider 0 1 [example_holding ''X'' sh price] fresh_service)
     = Inr (valuation_of_quotes [quote_result example_raw 1] [example_holding ''X'' sh price] 1)"
  by (simp add: calculatePortfolioValue_fst getMultipleQuotes_fst resolved_fresh
      example_provider_def example_holding_fields)

lemma example_valued_list:
  "valued_list [quote_result example_raw 1] [example_holding ''X'' sh price]
     = [valued_holding (example_holding ''X'' sh price) (quote_result example_raw 1)]"
  by (simp add: valued_list_def List.map_filter_simps example_holding_fields example_quote_fields)

lemma example_valuation_scenario:
  "totalValue (valuation_of_quotes [quote_result example_raw 1] [example_holding ''X'' 10 50] 1) = Fin 600"
  "totalCost (valuation_of_quotes [quote_result example_raw 1] [example_holding ''X'' 10 50] 1) = Number (Fin 500)"
  "totalGainLoss (valuation_of_quotes [quote_result example_raw 1] [example_holding ''X'' 10 50] 1) = Fin 100"
  "totalGainLossPercent (valuation_of_quotes [quote_result example_raw 1] [example_holding ''X'' 10 50] 1) = Fin 20"
  "map currentValue (holdings (valuation_of_quotes [quote_result example_raw 1] [example_holding ''X'' 10 50] 1)) = [Fin 600]"
  "map gainLoss (holdings (valuation_of_quotes [quote_result example_raw 1] [example_holding ''X'' 10 50] 1)) = [Fin 100]"
  "map gainLossPercent (holdings (valuation_of_quotes [quote_result example_raw 1] [example_holding ''X'' 10 50] 1)) = [Fin 20]"
  by (simp_all add: valuation_of_quotes_eq example_valued_list valued_holding_figures
      example_holding_fields example_quote_fields js_sub_def js_gt_def Let_def finite_result_small)

theorem valuation_fails_or_excludes_witness:
  "fst (calculatePortfolioValue example_provider 0 1
          [example_holding ''X'' 10 50, example_holding ''Y'' 5 20] fresh_service)
     = Inl FailedToCalculatePortfolioValue
 \<and> fst (calculatePortfolioValue example_provider 0 1 [example_holding ''X'' 10 50] fresh_service)
     = Inr (valuation_of_quotes [quote_result example_raw 1] [example_holding ''X'' 10 50] 1)
 \<and> totalValue (valuation_of_quotes [quote_result example_raw 1] [example_holding ''X'' 10 50] 1)
     = Fin 600"
proof -
  have a: "example_holding ''Y'' 5 20 \<in> set [example_holding ''X'' 10 50, example_holding ''Y'' 5 20]
      \<and> getCached 0 (quote_key (symbol (example_holding ''Y'' 5 20))) fresh_service = None
      \<and> example_provider (symbol (example_holding ''Y'' 5 20)) = None"
    by (simp add: getCached_def fresh_service_def example_provider_def example_holding_fields)
  have b: "[example_holding ''X'' 10 50] \<noteq> []
      \<and> (\<forall>h\<in>set [example_holding ''X'' 10 50].
            resolved_quote example_provider 0 1 fresh_service (symbol h) \<noteq> None)"
    by (simp add: resolved_fresh example_provider_def example_holding_fields)
  have q: "map (\<lambda>h. the (resolved_quote example_provider 0 1 fresh_service (symbol h)))
             [example_holding ''X'' 10 50] = [quote_result example_raw 1]"
    by (simp add: resolved_fresh example_provider_def example_holding_fields)
  note r1 = valuation_fails_or_excludes [of "example_holding ''Y'' 5 20"
      "[example_holding ''X'' 10 50, example_holding ''Y'' 5 20]" 0 fresh_service example_provider 1,
      THEN conjunct1, THEN mp, OF a]
  note r2 = valuation_fails_or_excludes [of "example_holding ''X'' 10 50"
      "[example_holding ''X'' 10 50]" 0 fresh_service example_provider 1,
      THEN conjunct2, THEN mp, OF b, unfolded Let_def q]
  show ?thesis
    using r1 r2 by (simp add: example_valuation_scenario)
qed

text \<open>
  Two holdings, X and Y, and a provider that answers for X only: the valuation does not
  return the partial result for X, it fails.
\<close>

theorem one_failed_quote_fails_valuation:
  "fst (calculatePortfolioValue example_provider 0 1
          [example_holding ''X'' 10 50, example_holding ''Y'' 5 20] fresh_service)
     = Inl FailedToCalculatePortfolioValue"
  by (simp add: calculatePortfolioValue_fst getMultipleQuotes_fst resolved_fresh
      example_provider_def example_holding_fields)

text \<open>
  C2. On the empty holdings list the service is returned unchanged (no fetch is logged),
  and the returned object has \<open>totalValue\<close>, \<open>totalGainLoss\<close> and
  \<open>totalGainLossPercent\<close> 0 and no holdings, but it has no \<open>totalCost\<close> property
  (and no timestamp): reading \<open>totalCost\<close> gives \<open>undefined\<close>, where the specified
  record has \<open>totalCost: 0\<close> and where the object returned for a non-empty list has the
  property.
\<close>

theorem calculatePortfolioValue_empty:
  "calculatePortfolioValue prov now done [] s =
     (Inr \<lparr>totalValue = Fin 0, totalCost = Undefined, totalGainLoss = Fin 0,
           totalGainLossPercent = Fin 0, holdings = [], v_timestamp = None\<rparr>, s)"
  by (simp add: calculatePortfolioValue_def)

text \<open>
  C4. A holding of 10 shares at an average price of 0, quoted at 60: the cost basis is
  0 and the per-holding \<open>gainLossPercent\<close> is \<open>600 / 0 * 100\<close>, that is Infinity, where
  the specified guard gives 0. The total of the same valuation is guarded
  (\<open>totalCost > 0 ? ... : 0\<close>) and is 0.
\<close>

theorem zero_cost_basis_percent_unguarded:
  "fst (calculatePortfolioValue example_provider 0 1 [example_holding ''X'' 10 0] fresh_service)
     = Inr (valuation_of_quotes [quote_result example_raw 1] [example_holding ''X'' 10 0] 1)
 \<and> map gainLossPercent
      (holdings (valuation_of_quotes [quote_result example_raw 1] [example_holding ''X'' 10 0] 1))
     = [PosInf]
 \<and> totalGainLossPercent
      (valuation_of_quotes [quote_result example_raw 1] [example_holding ''X'' 10 0] 1) = Fin 0"
  by (simp add: example_valuation valuation_of_quotes_eq example_valued_list valued_holding_figures
      example_holding_fields example_quote_fields js_sub_def js_gt_def Let_def inf_of_sign_def
      finite_result_small)


section \<open>Repeated valuation\<close>

text \<open>
  C9, as the code has it. With unchanged holdings and unchanged quotes (the provider
  is the same, and the cached quotes are answers of this provider), a second valuation,
  at any later time and from the service as the first left it, gives the same outcome:
  the same failure, or a valuation equal to the first in every field except the
  timestamp.
\<close>

theorem valuation_repeatable:
  assumes "cache_agrees prov s"
  shows "unstamped (fst (calculatePortfolioValue prov now2 done2 hs
                           (snd (calculatePortfolioValue prov now1 done1 hs s))))
       = unstamped (fst (calculatePortfolioValue prov now1 done1 hs s))"
  by (simp only: unstamped_calculatePortfolioValue[OF assms]
      unstamped_calculatePortfolioValue[OF calculatePortfolioValue_agrees[OF assms]])

theorem valuation_repeatable_witness:
  "cache_agrees example_provider fresh_service
 \<and> unstamped (fst (calculatePortfolioValue example_provider 300 400 [example_holding ''X'' 10 50]
       (snd (calculatePortfolioValue example_provider 0 1 [example_holding ''X'' 10 50] fresh_service))))
   = unstamped (fst (calculatePortfolioValue example_provider 0 1 [example_holding ''X'' 10 50]
       fresh_service))"
proof -
  have a: "cache_agrees example_provider fresh_service"
    by (simp add: cache_agrees_def fresh_service_def)
  show ?thesis
    using a valuation_repeatable [OF a, of 300 400 "[example_holding ''X'' 10 50]" 0 1] by simp
qed


text \<open>
  The returned object carries \<open>timestamp: new Date().toISOString()\<close>: two valuations
  of the same holdings at different times are not the same object.
\<close>

theorem valuation_timestamp_differs:
  "fst (calculatePortfolioValue example_provider 2 3 [example_holding ''X'' 10 50]
       (snd (calculatePortfolioValue example_provider 0 1 [example_holding ''X'' 10 50] fresh_service)))
   \<noteq> fst (calculatePortfolioValue example_provider 0 1 [example_holding ''X'' 10 50] fresh_service)"
proof -
  have st: "v_timestamp (valuation_of_quotes qs hs t) = Some t" for qs hs t
    by (simp add: valuation_of_quotes_eq Let_def)
  have ts: "map_sum (\<lambda>e. e) v_timestamp
        (fst (calculatePortfolioValue example_provider now t [example_holding ''X'' 10 50] s))
      = Inr (Some t)" for now t s
    using resolved_answered[of example_provider "''X''" now t s]
    by (simp add: calculatePortfolioValue_fst getMultipleQuotes_fst example_holding_fields
        example_provider_def st)
  show ?thesis
  proof
    assume "fst (calculatePortfolioValue example_provider 2 3 [example_holding ''X'' 10 50]
       (snd (calculatePortfolioValue example_provider 0 1 [example_holding ''X'' 10 50] fresh_service)))
      = fst (calculatePortfolioValue example_provider 0 1 [example_holding ''X'' 10 50] fresh_service)"
    then have "map_sum (\<lambda>e. e) v_timestamp
        (fst (calculatePortfolioValue example_provider 2 3 [example_holding ''X'' 10 50]
          (snd (calculatePortfolioValue example_provider 0 1 [example_holding ''X'' 10 50] fresh_service))))
      = map_sum (\<lambda>e. e) v_timestamp
        (fst (calculatePortfolioValue example_provider 0 1 [example_holding ''X'' 10 50] fresh_service))"
      by simp
    then show False by (simp only: ts) simp
  qed
qed

section \<open>Weighted-average cost basis\<close>

lemma findIndex_None: "findIndex P xs = None \<longleftrightarrow> find P xs = None"
  by (induction xs) auto

lemma findIndex_Some:
  "findIndex P xs = Some i \<Longrightarrow> i < length xs \<and> find P xs = Some (xs ! i)"
  by (induction xs arbitrary: i) (auto split: if_splits)

lemma find_update_found:
  "findIndex P xs = Some i \<Longrightarrow> P y \<Longrightarrow> find P (xs[i := y]) = Some y"
  by (induction xs arbitrary: i) (auto split: if_splits)

lemma find_snoc:
  "find P (xs @ [e]) = (case find P xs of None \<Rightarrow> (if P e then Some e else None) | Some x \<Rightarrow> Some x)"
  by (induction xs) auto

lemma merge_existing_fields:
  "symbol (merge_existing existing entry q) = symbol existing"
  "shares (merge_existing existing entry q) = js_add (shares existing) (shares entry)"
  "avgPrice (merge_existing existing entry q) =
     js_div (js_add (js_mul (shares existing) (avgPrice existing))
                    (js_mul (shares entry) (avgPrice entry)))
            (js_add (shares existing) (shares entry))"
  by (simp_all add: merge_existing_def Let_def)

lemma position_add_stock:
  "position (symbol entry) (add_stock portfolio entry q) =
     Some (weighted (position (symbol entry) portfolio) (shares entry) (avgPrice entry))"
proof (cases "findIndex (\<lambda>st. symbol st = symbol entry) portfolio")
  case None
  then have "find (\<lambda>st. symbol st = symbol entry) portfolio = None"
    by (simp add: findIndex_None)
  then show ?thesis using None
    by (simp add: add_stock_def position_def find_snoc)
next
  case (Some i)
  from findIndex_Some[OF Some]
  have f: "find (\<lambda>st. symbol st = symbol entry) portfolio = Some (portfolio ! i)" by simp
  then have sy: "symbol (portfolio ! i) = symbol entry"
    by (auto simp: find_Some_iff)
  have "find (\<lambda>st. symbol st = symbol entry)
          (portfolio[i := merge_existing (portfolio ! i) entry q])
        = Some (merge_existing (portfolio ! i) entry q)"
    using Some sy by (intro find_update_found) (simp_all add: merge_existing_fields)
  then show ?thesis using Some f
    by (simp add: add_stock_def position_def merge_existing_fields)
qed

lemma stockEntry_fields:
  "symbol (stockEntry now ticker sh price date q) = toUpperCase ticker"
  "shares (stockEntry now ticker sh price date q) = sh"
  "avgPrice (stockEntry now ticker sh price date q) = price"
  by (simp_all add: stockEntry_def)

lemma weighted_fresh_commute:
  "weighted (Some (weighted None s1 p1)) s2 p2 = weighted (Some (weighted None s2 p2)) s1 p1"
  by (simp add: js_add_commute[of s1 s2] js_add_commute[of "js_mul s1 p1"])


lemma js_add_Fin_inv: "js_add x y = Fin r \<Longrightarrow> \<exists>a b. x = Fin a \<and> y = Fin b \<and> r = a + b"
  by (cases x; cases y) (auto dest: finite_result_Fin)

lemma js_mul_Fin_inv: "js_mul x y = Fin r \<Longrightarrow> \<exists>a b. x = Fin a \<and> y = Fin b \<and> r = a * b"
  by (cases x; cases y) (auto simp: inf_of_sign_def dest: finite_result_Fin split: if_splits)

lemma js_div_Fin_inv:
  "js_div x (Fin b) = Fin r \<Longrightarrow> b \<noteq> 0 \<and> (\<exists>a. x = Fin a \<and> r = a / b)"
  by (cases x) (auto simp: inf_of_sign_def dest: finite_result_Fin split: if_splits)

lemma weighted_inv:
  assumes "weighted (Some (x, y)) sh price = (Fin S, Fin P)"
  shows "\<exists>a c b d. x = Fin a \<and> y = Fin c \<and> sh = Fin b \<and> price = Fin d
           \<and> S = a + b \<and> S \<noteq> 0 \<and> P * S = a * c + b * d"
proof -
  from assms have s: "js_add x sh = Fin S" by simp
  from assms s have p: "js_div (js_add (js_mul x y) (js_mul sh price)) (Fin S) = Fin P"
    by simp
  from js_add_Fin_inv[OF s] obtain a b where ab: "x = Fin a" "sh = Fin b" "S = a + b" by auto
  from js_div_Fin_inv[OF p] obtain n where n: "S \<noteq> 0"
    "js_add (js_mul x y) (js_mul sh price) = Fin n" "P = n / S" by auto
  from js_add_Fin_inv[OF n(2)] obtain u v where uv: "js_mul x y = Fin u" "js_mul sh price = Fin v"
    "n = u + v" by auto
  from js_mul_Fin_inv[OF uv(1)] ab(1) obtain c where c: "y = Fin c" "u = a * c" by auto
  from js_mul_Fin_inv[OF uv(2)] ab(2) obtain d where d: "price = Fin d" "v = b * d" by auto
  have "P * S = n" using n(1,3) by simp
  then show ?thesis using ab c d uv(3) n(1) by auto
qed

lemma weighted_twice_inv:
  assumes "weighted (Some (weighted (Some (x, y)) s1 p1)) s2 p2 = (Fin S, Fin P)"
  shows "\<exists>a c b1 d1 b2 d2. x = Fin a \<and> y = Fin c \<and> s1 = Fin b1 \<and> p1 = Fin d1
           \<and> s2 = Fin b2 \<and> p2 = Fin d2
           \<and> S = a + b1 + b2 \<and> S \<noteq> 0 \<and> P * S = a * c + b1 * d1 + b2 * d2"
proof -
  obtain x' y' where w: "weighted (Some (x, y)) s1 p1 = (x', y')" by (cases "weighted (Some (x, y)) s1 p1")
  from weighted_inv[OF assms[unfolded w]] obtain a' c' b2 d2 where 2:
    "x' = Fin a'" "y' = Fin c'" "s2 = Fin b2" "p2 = Fin d2" "S = a' + b2" "S \<noteq> 0"
    "P * S = a' * c' + b2 * d2" by blast
  from weighted_inv[OF w[unfolded 2(1,2)]] obtain a c b1 d1 where 1:
    "x = Fin a" "y = Fin c" "s1 = Fin b1" "p1 = Fin d1" "a' = a + b1" "a' \<noteq> 0"
    "c' * a' = a * c + b1 * d1" by blast
  have "P * S = a * c + b1 * d1 + b2 * d2" using 2(7) 1(7) by (simp add: mult.commute)
  then show ?thesis using 1 2 by auto
qed

lemma weighted_order:
  assumes a: "weighted (Some (weighted (Some (x, y)) s1 p1)) s2 p2 = (Fin S, Fin P)"
    and b: "weighted (Some (weighted (Some (x, y)) s2 p2)) s1 p1 = (Fin S', Fin P')"
  shows "S = S' \<and> P = P'"
proof -
  from weighted_twice_inv[OF a] obtain a0 c0 b1 d1 b2 d2 where 1:
    "x = Fin a0" "y = Fin c0" "s1 = Fin b1" "p1 = Fin d1" "s2 = Fin b2" "p2 = Fin d2"
    "S = a0 + b1 + b2" "S \<noteq> 0" "P * S = a0 * c0 + b1 * d1 + b2 * d2" by blast
  from weighted_twice_inv[OF b] 1(1-6) have 2:
    "S' = a0 + b2 + b1" "P' * S' = a0 * c0 + b2 * d2 + b1 * d1" by auto
  have s: "S = S'" using 1(7) 2(1) by simp
  have "P * S = P' * S" using 1(9) 2(2) s by simp
  then have "P = P'" using 1(8) by simp
  with s show ?thesis by simp
qed

lemma finite_position_iff: "finite_position w \<longleftrightarrow> (\<exists>S P. w = Some (Fin S, Fin P))"
  by (cases w rule: finite_position.cases) auto

lemma getStockQuote_fst:
  "fst (getStockQuote prov now done t s) =
     (case resolved_quote prov now done s t of None \<Rightarrow> Inl (FailedToFetchData t) | Some q \<Rightarrow> Inr q)"
  by (simp add: getStockQuote_def getStockQuote_begin_def resolved_quote_def Let_def
      split: option.splits)

text \<open>
  With no binding for \<open>portfolios\<close> the handler never reaches the merge: it answers 400
  or 500 and there is still no store.
\<close>

lemma post_add_unbound:
  "fst (snd (post_add prov now done done2 userId body None s)) = None
 \<and> (fst (post_add prov now done done2 userId body None s) = Status400
    \<or> fst (post_add prov now done done2 userId body None s) = Status500)"
  by (simp add: post_add_def Let_def split: option.splits prod.splits sum.splits)

lemma post_add_holding:
  assumes "ticker \<noteq> []" "prov (toUpperCase ticker) \<noteq> None"
  shows "holding_of (fst (snd (post_add prov now done done2 userId (add_request ticker sh price date)
                                  (Some st) s))) userId (toUpperCase ticker)
       = Some (weighted (holding_of (Some st) userId (toUpperCase ticker)) sh price)"
proof -
  from resolved_answered[of prov "toUpperCase ticker" now "done" s] assms(2)
  obtain q where q: "resolved_quote prov now done s (toUpperCase ticker) = Some q" by auto
  then have g: "fst (getStockQuote prov now done (toUpperCase ticker) s) = Inr q"
    by (simp add: getStockQuote_fst)
  let ?pf = "case st userId of None \<Rightarrow> [] | Some xs \<Rightarrow> xs"
  let ?e = "stockEntry done ticker sh price date q"
  have "fst (snd (post_add prov now done done2 userId (add_request ticker sh price date) (Some st) s))
      = Some (st(userId \<mapsto> add_stock ?pf ?e q))"
    using assms(1) g
    by (cases "getStockQuote prov now done (toUpperCase ticker) s")
      (auto simp: post_add_def add_request_def Let_def split: prod.splits sum.splits)
  then show ?thesis
    using position_add_stock[of ?e ?pf q]
    by (simp add: holding_of_def stockEntry_fields)
qed

lemma post_adds_two:
  assumes "ticker \<noteq> []" "prov (toUpperCase ticker) \<noteq> None"
  shows "holding_of (fst (post_adds prov userId
            [(ta, add_request ticker s1 p1 da), (tb, add_request ticker s2 p2 db)] (Some st) s))
          userId (toUpperCase ticker)
       = Some (weighted (Some (weighted (holding_of (Some st) userId (toUpperCase ticker)) s1 p1)) s2 p2)"
proof -
  obtain a1 a2 a3 where ta: "ta = (a1, a2, a3)" by (cases ta)
  obtain b1 b2 b3 where tb: "tb = (b1, b2, b3)" by (cases tb)
  obtain r st1 sv1 where 1: "post_add prov a1 a2 a3 userId (add_request ticker s1 p1 da) (Some st) s
      = (r, st1, sv1)" by (cases "post_add prov a1 a2 a3 userId (add_request ticker s1 p1 da) (Some st) s")
  have h1: "holding_of st1 userId (toUpperCase ticker)
      = Some (weighted (holding_of (Some st) userId (toUpperCase ticker)) s1 p1)"
    using post_add_holding[of ticker prov a1 a2 a3 userId s1 p1 da st s] assms 1 by simp
  then obtain st1' where st1: "st1 = Some st1'" by (cases st1) (simp_all add: holding_of_def)
  show ?thesis
    using post_add_holding[of ticker prov b1 b2 b3 userId s2 p2 db st1' sv1] assms h1
    by (simp add: ta tb 1 st1 split_beta)
qed

text \<open>
  C5, for a route whose variable \<open>portfolios\<close> is bound to a store (the route file
  declares none, see \<open>post_add_unbound\<close>), a request that carries all its fields and a
  symbol whose quote the provider answers. Adding \<open>sh\<close> shares at \<open>price\<close> of a symbol
  that the user holds gives the shares \<open>old + sh\<close> and the average price
  \<open>(old * oldAvg + sh * price) / (old + sh)\<close>. Two additions of a symbol that the user
  does not hold yet give the same shares and average price in either order. So do two
  additions to a holding in exact arithmetic, that is whenever the shares and the
  average price that result are finite in both orders (no operation has overflowed or
  divided by zero).
\<close>

theorem weighted_average_merge:
  "(ticker \<noteq> [] \<and> prov (toUpperCase ticker) \<noteq> None
      \<and> holding_of (Some st) userId (toUpperCase ticker) = Some (oldShares, oldAvgPrice) \<longrightarrow>
      holding_of (fst (snd (post_add prov now done done2 userId (add_request ticker sh price date)
                              (Some st) s))) userId (toUpperCase ticker)
        = Some (js_add oldShares sh,
                js_div (js_add (js_mul oldShares oldAvgPrice) (js_mul sh price))
                       (js_add oldShares sh)))
 \<and> (ticker \<noteq> [] \<and> prov (toUpperCase ticker) \<noteq> None
      \<and> holding_of (Some st) userId (toUpperCase ticker) = None \<longrightarrow>
      holding_of (fst (post_adds prov userId
          [(t1, add_request ticker s1 p1 d1), (t2, add_request ticker s2 p2 d2)] (Some st) s))
        userId (toUpperCase ticker)
      = holding_of (fst (post_adds prov userId
          [(t3, add_request ticker s2 p2 d3), (t4, add_request ticker s1 p1 d4)] (Some st) s))
        userId (toUpperCase ticker))
 \<and> (ticker \<noteq> [] \<and> prov (toUpperCase ticker) \<noteq> None
      \<and> finite_position (holding_of (fst (post_adds prov userId
          [(t1, add_request ticker s1 p1 d1), (t2, add_request ticker s2 p2 d2)] (Some st) s))
        userId (toUpperCase ticker))
      \<and> finite_position (holding_of (fst (post_adds prov userId
          [(t3, add_request ticker s2 p2 d3), (t4, add_request ticker s1 p1 d4)] (Some st) s))
        userId (toUpperCase ticker)) \<longrightarrow>
      holding_of (fst (post_adds prov userId
          [(t1, add_request ticker s1 p1 d1), (t2, add_request ticker s2 p2 d2)] (Some st) s))
        userId (toUpperCase ticker)
      = holding_of (fst (post_adds prov userId
          [(t3, add_request ticker s2 p2 d3), (t4, add_request ticker s1 p1 d4)] (Some st) s))
        userId (toUpperCase ticker))"
proof (intro conjI impI)
  assume a: "ticker \<noteq> [] \<and> prov (toUpperCase ticker) \<noteq> None
      \<and> holding_of (Some st) userId (toUpperCase ticker) = Some (oldShares, oldAvgPrice)"
  then show "holding_of (fst (snd (post_add prov now done done2 userId (add_request ticker sh price date)
                              (Some st) s))) userId (toUpperCase ticker)
        = Some (js_add oldShares sh,
                js_div (js_add (js_mul oldShares oldAvgPrice) (js_mul sh price))
                       (js_add oldShares sh))"
    by (simp add: post_add_holding)
next
  assume a: "ticker \<noteq> [] \<and> prov (toUpperCase ticker) \<noteq> None
      \<and> holding_of (Some st) userId (toUpperCase ticker) = None"
  then have t: "ticker \<noteq> []" "prov (toUpperCase ticker) \<noteq> None"
    and n: "holding_of (Some st) userId (toUpperCase ticker) = None" by simp_all
  have A: "holding_of (fst (post_adds prov userId
          [(t1, add_request ticker s1 p1 d1), (t2, add_request ticker s2 p2 d2)] (Some st) s))
        userId (toUpperCase ticker) = Some (weighted (Some (weighted None s1 p1)) s2 p2)"
    using post_adds_two[of ticker prov userId t1 s1 p1 d1 t2 s2 p2 d2 st s] t n by simp
  have B: "holding_of (fst (post_adds prov userId
          [(t3, add_request ticker s2 p2 d3), (t4, add_request ticker s1 p1 d4)] (Some st) s))
        userId (toUpperCase ticker) = Some (weighted (Some (weighted None s2 p2)) s1 p1)"
    using post_adds_two[of ticker prov userId t3 s2 p2 d3 t4 s1 p1 d4 st s] t n by simp
  show "holding_of (fst (post_adds prov userId
          [(t1, add_request ticker s1 p1 d1), (t2, add_request ticker s2 p2 d2)] (Some st) s))
        userId (toUpperCase ticker)
      = holding_of (fst (post_adds prov userId
          [(t3, add_request ticker s2 p2 d3), (t4, add_request ticker s1 p1 d4)] (Some st) s))
        userId (toUpperCase ticker)"
    by (simp only: A B weighted_fresh_commute[of s1 p1 s2 p2])
next
  let ?A = "holding_of (fst (post_adds prov userId
          [(t1, add_request ticker s1 p1 d1), (t2, add_request ticker s2 p2 d2)] (Some st) s))
        userId (toUpperCase ticker)"
  let ?B = "holding_of (fst (post_adds prov userId
          [(t3, add_request ticker s2 p2 d3), (t4, add_request ticker s1 p1 d4)] (Some st) s))
        userId (toUpperCase ticker)"
  let ?h = "holding_of (Some st) userId (toUpperCase ticker)"
  assume a: "ticker \<noteq> [] \<and> prov (toUpperCase ticker) \<noteq> None \<and> finite_position ?A \<and> finite_position ?B"
  then have t: "ticker \<noteq> []" "prov (toUpperCase ticker) \<noteq> None" by simp_all
  have A: "?A = Some (weighted (Some (weighted ?h s1 p1)) s2 p2)"
    using t by (rule post_adds_two)
  have B: "?B = Some (weighted (Some (weighted ?h s2 p2)) s1 p1)"
    using t by (rule post_adds_two)
  from a obtain S P where fa: "?A = Some (Fin S, Fin P)" by (auto simp: finite_position_iff)
  from a obtain S' P' where fb: "?B = Some (Fin S', Fin P')" by (auto simp: finite_position_iff)
  show "?A = ?B"
  proof (cases ?h)
    case None
    then show ?thesis using weighted_fresh_commute[of s1 p1 s2 p2] by (simp only: A B)
  next
    case (Some xy)
    obtain x y where xy: "xy = (x, y)" by (cases xy)
    from A fa Some xy have 1: "weighted (Some (weighted (Some (x, y)) s1 p1)) s2 p2 = (Fin S, Fin P)"
      by simp
    from B fb Some xy have 2: "weighted (Some (weighted (Some (x, y)) s2 p2)) s1 p1 = (Fin S', Fin P')"
      by simp
    from weighted_order[OF 1 2] show ?thesis using fa fb by simp
  qed
qed

theorem weighted_average_merge_witness:
  "holding_of (fst (snd (post_add example_provider 0 1 2 ''u''
       (add_request ''x'' (Fin 20) (Fin 130) None) (Some example_store) fresh_service))) ''u'' ''X''
     = Some (Fin 30, Fin 120)
 \<and> holding_of (fst (post_adds example_provider ''u''
       [((0, 1, 2), add_request ''x'' (Fin 10) (Fin 100) None),
        ((3, 4, 5), add_request ''x'' (Fin 20) (Fin 130) None)] (Some Map.empty) fresh_service))
      ''u'' ''X''
     = holding_of (fst (post_adds example_provider ''u''
       [((0, 1, 2), add_request ''x'' (Fin 20) (Fin 130) None),
        ((3, 4, 5), add_request ''x'' (Fin 10) (Fin 100) None)] (Some Map.empty) fresh_service))
      ''u'' ''X''
 \<and> holding_of (fst (post_adds example_provider ''u''
       [((0, 1, 2), add_request ''x'' (Fin 10) (Fin 100) None),
        ((3, 4, 5), add_request ''x'' (Fin 20) (Fin 130) None)] (Some Map.empty) fresh_service))
      ''u'' ''X''
     = Some (Fin 30, Fin 120)
 \<and> holding_of (fst (post_adds example_provider ''u''
       [((0, 1, 2), add_request ''x'' (Fin 20) (Fin 130) None),
        ((3, 4, 5), add_request ''x'' (Fin 30) (Fin 90) None)] (Some example_store) fresh_service))
      ''u'' ''X''
     = holding_of (fst (post_adds example_provider ''u''
       [((0, 1, 2), add_request ''x'' (Fin 30) (Fin 90) None),
        ((3, 4, 5), add_request ''x'' (Fin 20) (Fin 130) None)] (Some example_store) fresh_service))
      ''u'' ''X''
 \<and> holding_of (fst (post_adds example_provider ''u''
       [((0, 1, 2), add_request ''x'' (Fin 20) (Fin 130) None),
        ((3, 4, 5), add_request ''x'' (Fin 30) (Fin 90) None)] (Some example_store) fresh_service))
      ''u'' ''X''
     = Some (Fin 60, Fin 105)"
proof -
  have up: "toUpperCase ''x'' = ''X''"
    by code_simp
  have t: "''x'' \<noteq> []" "example_provider (toUpperCase ''x'') \<noteq> None"
    by (simp_all add: up example_provider_def)
  have h0: "holding_of (Some Map.empty) ''u'' (toUpperCase ''x'') = None"
    by (simp add: holding_of_def position_def)
  have h1: "holding_of (Some example_store) ''u'' (toUpperCase ''x'') = Some (Fin 10, Fin 100)"
    by (simp add: holding_of_def position_def example_store_def up example_holding_fields)
  have v1: "weighted (Some (weighted None (Fin 10) (Fin 100))) (Fin 20) (Fin 130) = (Fin 30, Fin 120)"
    by (simp add: finite_result_small)
  have v2: "weighted (Some (weighted (Some (Fin 10, Fin 100)) (Fin 20) (Fin 130))) (Fin 30) (Fin 90)
      = (Fin 60, Fin 105)"
    by (simp add: finite_result_small)
  have v3: "weighted (Some (weighted (Some (Fin 10, Fin 100)) (Fin 30) (Fin 90))) (Fin 20) (Fin 130)
      = (Fin 60, Fin 105)"
    by (simp add: finite_result_small)
  have fresh: "holding_of (fst (post_adds example_provider ''u''
       [((0, 1, 2), add_request ''x'' (Fin 10) (Fin 100) None),
        ((3, 4, 5), add_request ''x'' (Fin 20) (Fin 130) None)] (Some Map.empty) fresh_service))
      ''u'' (toUpperCase ''x'') = Some (Fin 30, Fin 120)"
    by (simp only: post_adds_two[where ticker = "''x''" and prov = example_provider, OF t] h0 v1)
  have A: "holding_of (fst (post_adds example_provider ''u''
       [((0, 1, 2), add_request ''x'' (Fin 20) (Fin 130) None),
        ((3, 4, 5), add_request ''x'' (Fin 30) (Fin 90) None)] (Some example_store) fresh_service))
      ''u'' (toUpperCase ''x'') = Some (Fin 60, Fin 105)"
    by (simp only: post_adds_two[where ticker = "''x''" and prov = example_provider, OF t] h1 v2)
  have B: "holding_of (fst (post_adds example_provider ''u''
       [((0, 1, 2), add_request ''x'' (Fin 30) (Fin 90) None),
        ((3, 4, 5), add_request ''x'' (Fin 20) (Fin 130) None)] (Some example_store) fresh_service))
      ''u'' (toUpperCase ''x'') = Some (Fin 60, Fin 105)"
    by (simp only: post_adds_two[where ticker = "''x''" and prov = example_provider, OF t] h1 v3)
  have a1: "''x'' \<noteq> [] \<and> example_provider (toUpperCase ''x'') \<noteq> None
      \<and> holding_of (Some example_store) ''u'' (toUpperCase ''x'') = Some (Fin 10, Fin 100)"
    using t h1 by simp
  have a2: "''x'' \<noteq> [] \<and> example_provider (toUpperCase ''x'') \<noteq> None
      \<and> holding_of (Some Map.empty) ''u'' (toUpperCase ''x'') = None"
    using t h0 by simp
  have a3: "''x'' \<noteq> [] \<and> example_provider (toUpperCase ''x'') \<noteq> None
      \<and> finite_position (holding_of (fst (post_adds example_provider ''u''
       [((0, 1, 2), add_request ''x'' (Fin 20) (Fin 130) None),
        ((3, 4, 5), add_request ''x'' (Fin 30) (Fin 90) None)] (Some example_store) fresh_service))
      ''u'' (toUpperCase ''x''))
      \<and> finite_position (holding_of (fst (post_adds example_provider ''u''
       [((0, 1, 2), add_request ''x'' (Fin 30) (Fin 90) None),
        ((3, 4, 5), add_request ''x'' (Fin 20) (Fin 130) None)] (Some example_store) fresh_service))
      ''u'' (toUpperCase ''x''))"
    using t by (simp only: A B) simp
  note w1 = weighted_average_merge [where ticker = "''x''" and prov = example_provider
      and st = example_store and userId = "''u''" and oldShares = "Fin 10"
      and oldAvgPrice = "Fin 100" and now = 0 and ?done2.0 = 2 and sh = "Fin 20"
      and price = "Fin 130" and date = None and s = fresh_service,
      THEN conjunct1, THEN mp, OF a1]
  note w2 = weighted_average_merge [where ticker = "''x''" and prov = example_provider
      and st = Map.empty and userId = "''u''" and s = fresh_service
      and ?t1.0 = "(0, 1, 2)" and ?s1.0 = "Fin 10" and ?p1.0 = "Fin 100" and ?d1.0 = None
      and ?t2.0 = "(3, 4, 5)" and ?s2.0 = "Fin 20" and ?p2.0 = "Fin 130" and ?d2.0 = None
      and ?t3.0 = "(0, 1, 2)" and ?d3.0 = None and ?t4.0 = "(3, 4, 5)" and ?d4.0 = None,
      THEN conjunct2, THEN conjunct1, THEN mp, OF a2]
  note w3 = weighted_average_merge [where ticker = "''x''" and prov = example_provider
      and st = example_store and userId = "''u''" and s = fresh_service
      and ?t1.0 = "(0, 1, 2)" and ?s1.0 = "Fin 20" and ?p1.0 = "Fin 130" and ?d1.0 = None
      and ?t2.0 = "(3, 4, 5)" and ?s2.0 = "Fin 30" and ?p2.0 = "Fin 90" and ?d2.0 = None
      and ?t3.0 = "(0, 1, 2)" and ?d3.0 = None and ?t4.0 = "(3, 4, 5)" and ?d4.0 = None,
      THEN conjunct2, THEN conjunct2, THEN mp, OF a3]
  show ?thesis
    using w1 w2 w3 fresh A by (simp add: up finite_result_small)
qed

end
